theory Spec2Isabelle
  imports Complex_Main "HOL-Library.Sublist"
begin

section \<open>Shared data model\<close>

text \<open>
  The three programs (\<^verbatim>\<open>main.py\<close>, \<^verbatim>\<open>tutor_openai.py\<close>, \<^verbatim>\<open>app.py\<close>) talk to a
  chat-completion endpoint through the OpenAI client library. The endpoint is outside
  the repository, so it is a parameter of the model: a \<open>backend\<close> maps the client
  handle, the requests already issued and the current request to what
  \<^verbatim>\<open>client.chat.completions.create\<close> does, which is either to raise or to return a
  response object.

  A raised Python object is an instance of \<^verbatim>\<open>Exception\<close> (caught by
  \<^verbatim>\<open>except Exception\<close>) or of another \<^verbatim>\<open>BaseException\<close> class such as
  \<^verbatim>\<open>KeyboardInterrupt\<close> (not caught by it). The string carried is \<^verbatim>\<open>str(e)\<close>.
  Strings are byte lists (UTF-8).
\<close>

datatype raised = Exception string | NonException string

record chat_message =
  role :: string
  content :: string

record usage_info =
  prompt_tokens :: int
  completion_tokens :: int

text \<open>
  A response carries the message text of each of its choices and, optionally, the
  token usage (\<^verbatim>\<open>response.usage\<close> may be \<^verbatim>\<open>None\<close>).
\<close>

record response =
  choices :: "string list"
  usage :: "usage_info option"

record client =
  base_url :: "string option"
  api_key :: string

text \<open>The keyword arguments of one \<^verbatim>\<open>create\<close> call.\<close>

record request =
  req_model :: string
  req_messages :: "chat_message list"
  req_temperature :: real
  req_top_p :: "real option"
  req_max_tokens :: real

type_synonym backend = "client \<Rightarrow> request list \<Rightarrow> request \<Rightarrow> raised + response"

text \<open>A sampling configuration is a dictionary from parameter names to numbers.\<close>

type_synonym config = "string \<rightharpoonup> real"

definition dict_get :: "('k \<rightharpoonup> 'v) \<Rightarrow> 'k \<Rightarrow> 'v \<Rightarrow> 'v" where
  "dict_get d k dflt = (case d k of None \<Rightarrow> dflt | Some v \<Rightarrow> v)"

definition nl :: string where
  "nl = [CHR 0x0A]"

text \<open>\<^verbatim>\<open>sep.join(lines)\<close>\<close>

fun join :: "string \<Rightarrow> string list \<Rightarrow> string" where
  "join sep [] = []"
| "join sep [x] = x"
| "join sep (x # y # ys) = x @ sep @ join sep (y # ys)"

text \<open>
  \<^verbatim>\<open>xs[i]\<close> for a list: a negative index counts from the end, an index out of range
  raises \<^verbatim>\<open>IndexError\<close>.
\<close>

definition getitem :: "'a list \<Rightarrow> int \<Rightarrow> raised + 'a" where
  "getitem xs i =
     (if 0 \<le> i \<and> i < int (length xs) then Inr (xs ! nat i)
      else if i < 0 \<and> - int (length xs) \<le> i then Inr (xs ! nat (int (length xs) + i))
      else Inl (Exception ''list index out of range''))"

text \<open>
  The handler \<^verbatim>\<open>except Exception as e: return <sentinel>\<close> around a \<^verbatim>\<open>try\<close> body:
  an \<^verbatim>\<open>Exception\<close> becomes the returned sentinel text, anything else raised
  propagates, a normal result is returned.
\<close>

definition except_Exception :: "(string \<Rightarrow> string) \<Rightarrow> raised + string \<Rightarrow> raised + string" where
  "except_Exception handler body =
     (case body of
        Inl (Exception e) \<Rightarrow> Inr (handler e)
      | Inl (NonException e) \<Rightarrow> Inl (NonException e)
      | Inr v \<Rightarrow> Inr v)"

text \<open>\<^verbatim>\<open>response.choices[0].message.content\<close>\<close>

definition first_choice_content :: "response \<Rightarrow> raised + string" where
  "first_choice_content r = getitem (choices r) 0"

section \<open>\<^verbatim>\<open>main.py\<close>: the file-based variant\<close>

subsection \<open>Configuration\<close>

definition client_main :: client where
  "client_main = \<lparr>base_url = Some ''http://localhost:11434/v1'', api_key = ''ollama''\<rparr>"

definition TEACHER_MODEL :: string where "TEACHER_MODEL = ''llama3.2:latest''"
definition STUDENT1_MODEL :: string where "STUDENT1_MODEL = ''llama3.2:1b''"
definition STUDENT2_MODEL :: string where "STUDENT2_MODEL = ''gemma3:1b''"

definition TEACHER_CONFIG :: config where
  "TEACHER_CONFIG = [''temperature'' \<mapsto> 0.7, ''top_p'' \<mapsto> 0.9, ''top_k'' \<mapsto> 40,
     ''max_tokens'' \<mapsto> 150]"

definition STUDENT1_CONFIG :: config where
  "STUDENT1_CONFIG = [''temperature'' \<mapsto> 0.4, ''top_p'' \<mapsto> 0.85, ''top_k'' \<mapsto> 50,
     ''max_tokens'' \<mapsto> 100]"

definition STUDENT2_CONFIG :: config where
  "STUDENT2_CONFIG = [''temperature'' \<mapsto> 0.9, ''top_p'' \<mapsto> 0.9, ''top_k'' \<mapsto> 60,
     ''max_tokens'' \<mapsto> 100]"

definition TEACHER_PROMPT :: string where
  "TEACHER_PROMPT =
     ''You are Professor Maya, a Python programming teacher teaching ''
     @ ''Curious George and Handson Alex.'' @ nl @ nl
     @ ''TEACHING PROGRESSION (follow this order):'' @ nl
     @ ''1. Start with print('' @ [CHR 0x22] @ ''Hello, World!'' @ [CHR 0x22]
     @ '') - explain strings and basic output'' @ nl
     @ ''2. Then teach variables: name = '' @ [CHR 0x22] @ ''Alice'' @ [CHR 0x22]
     @ '', age = 25'' @ nl
     @ ''3. Then data types: strings, integers, floats, booleans'' @ nl
     @ ''4. Keep building progressively based on what students understand'' @ nl
     @ nl @ ''TEACHING STYLE:'' @ nl
     @ ''- Give ONE concrete code example per message'' @ nl
     @ ''- Ask students to try it or explain what it does'' @ nl
     @ ''- Wait for their responses before moving to next concept'' @ nl
     @ ''- Keep responses to 2-3 sentences max'' @ nl
     @ ''- Build on what students say''"

definition STUDENT1_PROMPT :: string where
  "STUDENT1_PROMPT =
     ''You are Curious George, a beginner learning Python with Professor ''
     @ ''Maya and Handson Alex.'' @ nl @ ''You ask '' @ [CHR 0x22] @ ''why''
     @ [CHR 0x22]
     @ '' questions about concepts. You want to understand the theory ''
     @ ''and purpose behind the code.'' @ nl
     @ ''When Professor Maya shows code, ask questions like '' @ [CHR 0x22]
     @ ''Why do we use quotes?'' @ [CHR 0x22] @ '' or '' @ [CHR 0x22]
     @ ''What does this do?'' @ [CHR 0x22] @ nl
     @ ''Keep responses brief (2-3 sentences).''"

definition STUDENT2_PROMPT :: string where
  "STUDENT2_PROMPT =
     ''You are Handson Alex, a beginner learning Python with Professor ''
     @ ''Maya and Curious George.'' @ nl
     @ ''You learn by doing. When you see code, you want to try variations ''
     @ ''or ask what happens if you change it.'' @ nl
     @ ''When Professor Maya shows code, ask questions like '' @ [CHR 0x22]
     @ ''What if I use numbers?'' @ [CHR 0x22] @ '' or share what you tried.'' @ nl
     @ ''Keep responses brief (2-3 sentences).''"

definition INITIAL_TOPIC :: string where
  "INITIAL_TOPIC =
     ''Let's start learning Python from the very beginning. Show us ''
     @ ''the first thing every programmer learns!''"

definition MAX_TURNS :: int where "MAX_TURNS = 20"

subsection \<open>Core functions\<close>

text \<open>
  An entry of the history (keys \<^verbatim>\<open>"speaker"\<close> and \<^verbatim>\<open>"message"\<close>) and a participant
  (keys \<^verbatim>\<open>"name"\<close>, \<^verbatim>\<open>"model"\<close>, \<^verbatim>\<open>"prompt"\<close>, \<^verbatim>\<open>"config"\<close>).
\<close>

record entry =
  speaker :: string
  message :: string

record participant =
  name :: string
  model :: string
  prompt :: string
  config :: config

text \<open>
  The keyword arguments that \<^verbatim>\<open>call_ollama\<close> passes to \<^verbatim>\<open>create\<close>
  (\<^verbatim>\<open>call_llm\<close> of \<^verbatim>\<open>app.py\<close> passes the same ones).
\<close>

definition completion_request :: "string \<Rightarrow> chat_message list \<Rightarrow> config \<Rightarrow> request" where
  "completion_request m msgs cfg =
     \<lparr>req_model = m, req_messages = msgs,
      req_temperature = dict_get cfg ''temperature'' 0.7,
      req_top_p = Some (dict_get cfg ''top_p'' 0.9),
      req_max_tokens = dict_get cfg ''max_tokens'' 150\<rparr>"

definition call_ollama ::
  "backend \<Rightarrow> request list \<Rightarrow> string \<Rightarrow> chat_message list \<Rightarrow> config option
     \<Rightarrow> (raised + string) \<times> request list" where
  "call_ollama be calls m msgs config_opt =
     (let cfg = (case config_opt of None \<Rightarrow> [''temperature'' \<mapsto> 0.7] | Some c \<Rightarrow> c);
          req = completion_request m msgs cfg
      in (except_Exception (\<lambda>e. ''[Error calling '' @ m @ '': '' @ e @ '']'')
            (case be client_main calls req of
               Inl e \<Rightarrow> Inl e
             | Inr r \<Rightarrow> first_choice_content r),
          calls @ [req]))"

definition format_conversation :: "entry list \<Rightarrow> string" where
  "format_conversation history =
     (if history = [] then ''No conversation yet.''
      else join (nl @ nl) (map (\<lambda>e. speaker e @ '': '' @ message e) history))"

text \<open>
  The user prompt that \<^verbatim>\<open>get_next_response\<close> builds (the same text in
  \<^verbatim>\<open>main.py\<close> and \<^verbatim>\<open>tutor_openai.py\<close>).
\<close>

definition user_prompt :: "string \<Rightarrow> entry list \<Rightarrow> string" where
  "user_prompt speaker_name conversation_history =
     (let conversation_text = format_conversation conversation_history
      in if conversation_history = [] then
           ''You are '' @ speaker_name @ ''.'' @ nl
           @ ''The topic to discuss is: '' @ INITIAL_TOPIC @ nl @ nl
           @ ''Start the conversation by introducing the topic and asking an opening question.''
         else
           ''You are '' @ speaker_name @ ''.'' @ nl @ nl
           @ ''The conversation so far is:'' @ nl
           @ conversation_text @ nl @ nl
           @ ''Now respond with what you would like to say next, as '' @ speaker_name
           @ ''. Be natural and conversational.'')"

definition build_messages :: "string \<Rightarrow> string \<Rightarrow> entry list \<Rightarrow> chat_message list" where
  "build_messages system_prompt speaker_name conversation_history =
     [\<lparr>role = ''system'', content = system_prompt\<rparr>,
      \<lparr>role = ''user'', content = user_prompt speaker_name conversation_history\<rparr>]"

definition get_next_response ::
  "backend \<Rightarrow> request list \<Rightarrow> string \<Rightarrow> string \<Rightarrow> string \<Rightarrow> entry list \<Rightarrow> config option
     \<Rightarrow> (raised + string) \<times> request list" where
  "get_next_response be calls m system_prompt speaker_name conversation_history config_opt =
     call_ollama be calls m (build_messages system_prompt speaker_name conversation_history)
       config_opt"

text \<open>
  The \<^verbatim>\<open>while turn < MAX_TURNS\<close> loop of \<^verbatim>\<open>run_conversation\<close>, with the local list
  \<^verbatim>\<open>participants\<close> and the bound as arguments. The index is \<^verbatim>\<open>turn % 3\<close>, as written.
  The result is the history at loop exit, or what was raised; the request log is
  returned beside it.
\<close>

function conversation_loop ::
  "backend \<Rightarrow> participant list \<Rightarrow> int \<Rightarrow> int \<Rightarrow> entry list \<Rightarrow> request list
     \<Rightarrow> (raised + entry list) \<times> request list" where
  "conversation_loop be participants max_turns turn conversation_history calls =
     (if turn < max_turns then
        (case getitem participants (turn mod 3) of
           Inl e \<Rightarrow> (Inl e, calls)
         | Inr p \<Rightarrow>
             (case get_next_response be calls (model p) (prompt p) (name p)
                     conversation_history (Some (config p)) of
                (Inl e, calls') \<Rightarrow> (Inl e, calls')
              | (Inr response, calls') \<Rightarrow>
                  conversation_loop be participants max_turns (turn + 1)
                    (conversation_history @ [\<lparr>speaker = name p, message = response\<rparr>]) calls'))
      else (Inr conversation_history, calls))"
  by pat_completeness auto
termination
  by (relation "measure (\<lambda>(be, ps, max_turns, turn, h, calls). nat (max_turns - turn))") auto

declare conversation_loop.simps [simp del]

definition participants_main :: "participant list" where
  "participants_main =
     [\<lparr>name = ''Professor Maya'', model = TEACHER_MODEL, prompt = TEACHER_PROMPT,
        config = TEACHER_CONFIG\<rparr>,
      \<lparr>name = ''Curious George'', model = STUDENT1_MODEL, prompt = STUDENT1_PROMPT,
        config = STUDENT1_CONFIG\<rparr>,
      \<lparr>name = ''Handson Alex'', model = STUDENT2_MODEL, prompt = STUDENT2_PROMPT,
        config = STUDENT2_CONFIG\<rparr>]"

text \<open>
  \<^verbatim>\<open>run_conversation\<close>: the loop on the three configured participants. The console output
  and the final write of the history to \<^verbatim>\<open>conversation_log.json\<close> are not modelled.
\<close>

definition run_conversation :: "backend \<Rightarrow> (raised + entry list) \<times> request list" where
  "run_conversation be = conversation_loop be participants_main MAX_TURNS 0 [] []"

section \<open>\<^verbatim>\<open>tutor_openai.py\<close>: the cost-aware variant\<close>

subsection \<open>Floating-point arithmetic\<close>

text \<open>
  Costs are Python floats. A float value is a finite real number, an infinity or
  not-a-number (the sign of zero is not modelled). The number format is a parameter: its
  rounding \<open>rnd\<close> and its overflow threshold \<open>huge\<close>, the least magnitude of an exact
  result that no longer rounds to a finite float. For IEEE 754 doubles \<open>rnd\<close> is
  round-to-nearest and \<open>huge\<close> is \<open>2^1024 - 2^970\<close>.
\<close>

datatype pyfloat = Finite real | PosInf | NegInf | NaN

record float_format =
  rnd :: "real \<Rightarrow> real"
  huge :: real

text \<open>The float that an exact result becomes: rounded, or an infinity on overflow.\<close>

definition fl :: "float_format \<Rightarrow> real \<Rightarrow> pyfloat" where
  "fl F x =
     (if huge F \<le> x then PosInf
      else if x \<le> - huge F then NegInf
      else Finite (rnd F x))"

text \<open>\<^verbatim>\<open>x * y\<close> and \<^verbatim>\<open>x + y\<close> on floats: they never raise.\<close>

fun fmul :: "float_format \<Rightarrow> pyfloat \<Rightarrow> pyfloat \<Rightarrow> pyfloat" where
  "fmul F NaN y = NaN"
| "fmul F x NaN = NaN"
| "fmul F (Finite x) (Finite y) = fl F (x * y)"
| "fmul F (Finite x) PosInf = (if 0 < x then PosInf else if x < 0 then NegInf else NaN)"
| "fmul F (Finite x) NegInf = (if 0 < x then NegInf else if x < 0 then PosInf else NaN)"
| "fmul F PosInf (Finite y) = (if 0 < y then PosInf else if y < 0 then NegInf else NaN)"
| "fmul F NegInf (Finite y) = (if 0 < y then NegInf else if y < 0 then PosInf else NaN)"
| "fmul F PosInf PosInf = PosInf"
| "fmul F PosInf NegInf = NegInf"
| "fmul F NegInf PosInf = NegInf"
| "fmul F NegInf NegInf = PosInf"

fun fadd :: "float_format \<Rightarrow> pyfloat \<Rightarrow> pyfloat \<Rightarrow> pyfloat" where
  "fadd F NaN y = NaN"
| "fadd F x NaN = NaN"
| "fadd F (Finite x) (Finite y) = fl F (x + y)"
| "fadd F PosInf NegInf = NaN"
| "fadd F NegInf PosInf = NaN"
| "fadd F PosInf y = PosInf"
| "fadd F x PosInf = PosInf"
| "fadd F NegInf y = NegInf"
| "fadd F x NegInf = NegInf"

text \<open>
  \<^verbatim>\<open>a / b\<close> on integers: the correctly rounded quotient, \<^verbatim>\<open>ZeroDivisionError\<close> for a
  zero divisor, \<^verbatim>\<open>OverflowError\<close> when the quotient is too large for a float.
\<close>

definition int_true_div :: "float_format \<Rightarrow> int \<Rightarrow> int \<Rightarrow> raised + pyfloat" where
  "int_true_div F a b =
     (if b = 0 then Inl (Exception ''division by zero'')
      else if huge F \<le> \<bar>real_of_int a / real_of_int b\<bar>
        then Inl (Exception ''integer division result too large for a float'')
      else Inr (Finite (rnd F (real_of_int a / real_of_int b))))"

text \<open>\<^verbatim>\<open>x <= y\<close> on floats: false whenever not-a-number is involved.\<close>

fun fle :: "pyfloat \<Rightarrow> pyfloat \<Rightarrow> bool" where
  "fle NaN y = False"
| "fle x NaN = False"
| "fle NegInf y = True"
| "fle x PosInf = True"
| "fle (Finite x) (Finite y) = (x \<le> y)"
| "fle PosInf y = False"
| "fle x NegInf = False"

subsection \<open>Configuration\<close>

text \<open>A price entry: the keys \<^verbatim>\<open>"input"\<close> and \<^verbatim>\<open>"output"\<close> of the source.\<close>

record price =
  input_price :: pyfloat
  output_price :: pyfloat

definition PRICING :: "float_format \<Rightarrow> string \<rightharpoonup> price" where
  "PRICING F =
     [''gpt-4o'' \<mapsto> \<lparr>input_price = fl F 2.50, output_price = fl F 10.00\<rparr>,
      ''o1-mini'' \<mapsto> \<lparr>input_price = fl F 3.00, output_price = fl F 12.00\<rparr>,
      ''gpt-4o-mini'' \<mapsto> \<lparr>input_price = fl F 0.150, output_price = fl F 0.600\<rparr>]"

text \<open>The client is built from the environment variable \<^verbatim>\<open>OPENAI_API_KEY\<close>.\<close>

definition client_openai :: "string \<Rightarrow> client" where
  "client_openai env_key = \<lparr>base_url = None, api_key = env_key\<rparr>"

subsection \<open>Cost tracking\<close>

record interaction =
  i_model :: string
  input_tokens :: int
  output_tokens :: int
  cost :: pyfloat

record TokenTracker =
  interactions :: "interaction list"
  total_input_tokens :: int
  total_output_tokens :: int
  total_cost :: pyfloat

text \<open>\<^verbatim>\<open>TokenTracker.__init__\<close>\<close>

definition TokenTracker_init :: TokenTracker where
  "TokenTracker_init =
     \<lparr>interactions = [], total_input_tokens = 0, total_output_tokens = 0,
      total_cost = Finite 0\<rparr>"

text \<open>
  \<^verbatim>\<open>TokenTracker.add_interaction\<close>: the returned cost or what was raised, and the tracker
  afterwards. The two costs are computed before anything is stored, so an
  \<^verbatim>\<open>OverflowError\<close> of a division leaves the tracker as it was. The default price entry
  holds the integers \<^verbatim>\<open>0\<close>, which the multiplication converts to the float zero.
\<close>

definition add_interaction ::
  "float_format \<Rightarrow> TokenTracker \<Rightarrow> string \<Rightarrow> int \<Rightarrow> int \<Rightarrow> (raised + pyfloat) \<times> TokenTracker" where
  "add_interaction F self m in_tokens out_tokens =
     (let pricing = dict_get (PRICING F) m \<lparr>input_price = Finite 0, output_price = Finite 0\<rparr>
      in case int_true_div F in_tokens 1000000 of
           Inl e \<Rightarrow> (Inl e, self)
         | Inr qi \<Rightarrow>
             (let input_cost = fmul F qi (input_price pricing)
              in case int_true_div F out_tokens 1000000 of
                   Inl e \<Rightarrow> (Inl e, self)
                 | Inr qo \<Rightarrow>
                     (let output_cost = fmul F qo (output_price pricing);
                          total = fadd F input_cost output_cost
                      in (Inr total,
                          self\<lparr>interactions := interactions self @
                                  [\<lparr>i_model = m, input_tokens = in_tokens,
                                    output_tokens = out_tokens, cost = total\<rparr>],
                               total_input_tokens := total_input_tokens self + in_tokens,
                               total_output_tokens := total_output_tokens self + out_tokens,
                               total_cost := fadd F (total_cost self) total\<rparr>))))"

subsection \<open>Core functions\<close>

text \<open>
  \<^verbatim>\<open>call_openai\<close>. Inside the \<^verbatim>\<open>try\<close>, the usage is recorded before the text of the
  first choice is read, so an \<^verbatim>\<open>IndexError\<close> there leaves the recorded interaction in
  the tracker; \<^verbatim>\<open>usage.prompt_tokens\<close> on a missing usage raises \<^verbatim>\<open>AttributeError\<close>,
  and what \<open>add_interaction\<close> raises is caught like the rest.
\<close>

definition openai_request :: "string \<Rightarrow> chat_message list \<Rightarrow> config \<Rightarrow> request" where
  "openai_request m msgs cfg =
     \<lparr>req_model = m, req_messages = msgs,
      req_temperature = dict_get cfg ''temperature'' 0.7,
      req_top_p = None,
      req_max_tokens = dict_get cfg ''max_tokens'' 150\<rparr>"

definition no_usage_error :: raised where
  "no_usage_error =
     Exception ([CHR 0x27] @ ''NoneType'' @ [CHR 0x27] @ '' object has no attribute ''
                @ [CHR 0x27] @ ''prompt_tokens'' @ [CHR 0x27])"

definition call_openai ::
  "float_format \<Rightarrow> backend \<Rightarrow> string \<Rightarrow> request list \<Rightarrow> string \<Rightarrow> chat_message list \<Rightarrow> config
     \<Rightarrow> TokenTracker \<Rightarrow> (raised + string) \<times> TokenTracker \<times> request list" where
  "call_openai F be env_key calls m msgs cfg tracker =
     (let req = openai_request m msgs cfg;
          handler = (\<lambda>e. ''[Error calling '' @ m @ '': '' @ e @ '']'')
      in case be (client_openai env_key) calls req of
           Inl e \<Rightarrow> (except_Exception handler (Inl e), tracker, calls @ [req])
         | Inr r \<Rightarrow>
             (case usage r of
                None \<Rightarrow> (except_Exception handler (Inl no_usage_error), tracker, calls @ [req])
              | Some u \<Rightarrow>
                  (case add_interaction F tracker m (prompt_tokens u) (completion_tokens u) of
                     (Inl e, tracker') \<Rightarrow>
                       (except_Exception handler (Inl e), tracker', calls @ [req])
                   | (Inr c, tracker') \<Rightarrow>
                       (except_Exception handler (first_choice_content r), tracker',
                        calls @ [req]))))"

text \<open>
  \<^verbatim>\<open>get_next_response\<close> of \<^verbatim>\<open>tutor_openai.py\<close>: the prompt is built as in
  \<^verbatim>\<open>main.py\<close> (\<open>format_conversation\<close> and the two templates are the same text).
\<close>

definition get_next_response_openai ::
  "float_format \<Rightarrow> backend \<Rightarrow> string \<Rightarrow> request list \<Rightarrow> string \<Rightarrow> string \<Rightarrow> string
     \<Rightarrow> entry list \<Rightarrow> config \<Rightarrow> TokenTracker
     \<Rightarrow> (raised + string) \<times> TokenTracker \<times> request list" where
  "get_next_response_openai F be env_key calls m system_prompt speaker_name
       conversation_history cfg tracker =
     call_openai F be env_key calls m
       (build_messages system_prompt speaker_name conversation_history) cfg tracker"

section \<open>\<^verbatim>\<open>app.py\<close>: the UI variant\<close>

subsection \<open>Provider call and prompt\<close>

definition call_llm ::
  "backend \<Rightarrow> request list \<Rightarrow> string \<Rightarrow> chat_message list \<Rightarrow> config \<Rightarrow> string \<Rightarrow> string \<Rightarrow> string
     \<Rightarrow> (raised + string) \<times> request list" where
  "call_llm be calls m msgs cfg src url key =
     (let cl = (if src = ''OpenAI API'' then \<lparr>base_url = None, api_key = key\<rparr>
                else \<lparr>base_url = Some url, api_key = ''ollama''\<rparr>);
          req = completion_request m msgs cfg
      in (except_Exception
            (\<lambda>e. ''[Error calling '' @ m @ '' via '' @ src @ '': '' @ e @ '']'')
            (case be cl calls req of
               Inl e \<Rightarrow> Inl e
             | Inr r \<Rightarrow> first_choice_content r),
          calls @ [req]))"

text \<open>
  An entry of \<^verbatim>\<open>conversation_history_internal\<close>: a dictionary with the keys
  \<^verbatim>\<open>"name"\<close> and \<^verbatim>\<open>"content"\<close> (the fields \<open>entry_name\<close> and \<open>entry_content\<close>).
  Both keys are always present, so the defaults of
  \<^verbatim>\<open>entry.get\<close> in \<^verbatim>\<open>format_conversation_for_prompt\<close> are never used.
\<close>

record ui_entry =
  entry_name :: string
  entry_content :: string

definition format_conversation_for_prompt :: "ui_entry list \<Rightarrow> string" where
  "format_conversation_for_prompt history =
     (if history = [] then ''No conversation yet.''
      else join (nl @ nl) (map (\<lambda>e. entry_name e @ '': '' @ entry_content e) history))"

text \<open>The user prompt built in the loop body of \<^verbatim>\<open>run_conversation_step\<close>.\<close>

definition ui_user_prompt :: "string \<Rightarrow> string \<Rightarrow> ui_entry list \<Rightarrow> string" where
  "ui_user_prompt topic_text speaker_name conversation_history =
     (let conversation_text = format_conversation_for_prompt conversation_history
      in if conversation_history = [] then
           ''You are '' @ speaker_name @ ''.'' @ nl
           @ ''The topic to discuss is: '' @ topic_text @ nl @ nl
           @ ''Start the conversation by introducing the topic and asking an opening question.''
         else
           ''You are '' @ speaker_name @ ''.'' @ nl @ nl
           @ ''The conversation so far is:'' @ nl
           @ conversation_text @ nl @ nl
           @ ''Now respond with what you would like to say next, as '' @ speaker_name
           @ ''. Be natural and conversational.'')"

subsection \<open>The generator \<^verbatim>\<open>run_conversation_step\<close>\<close>

record ui_participant = participant +
  role_tag :: string
  source :: string
  avatar :: string

text \<open>
  The parameters of \<^verbatim>\<open>run_conversation_step\<close> (the parameter \<^verbatim>\<open>api_key\<close> is the
  field \<open>ui_api_key\<close>).
\<close>

record step_args =
  topic :: string
  teacher_source :: string
  teacher_model :: string
  teacher_temp :: real
  teacher_top_p :: real
  teacher_prompt :: string
  student1_source :: string
  student1_model :: string
  student1_temp :: real
  student1_top_p :: real
  student1_prompt :: string
  student2_source :: string
  student2_model :: string
  student2_temp :: real
  student2_top_p :: real
  student2_prompt :: string
  max_turns :: int
  ollama_url :: string
  ui_api_key :: string
  current_messages :: "chat_message list"

text \<open>The avatars are the byte strings of the source file.\<close>

definition TEACHER_AVATAR :: string where
  "TEACHER_AVATAR =
     [CHR 0xC4, CHR 0x9F, CHR 0xC5, CHR 0xB8, CHR 0xE2, CHR 0x80, CHR 0x98, CHR 0xC2,
      CHR 0xA9, CHR 0xC3, CHR 0xA2, CHR 0xE2, CHR 0x82, CHR 0xAC, CHR 0xC4, CHR 0x9F,
      CHR 0xC5, CHR 0xB8, CHR 0xC2, CHR 0xAB]"

definition STUDENT1_AVATAR :: string where
  "STUDENT1_AVATAR = [CHR 0xC4, CHR 0x9F, CHR 0xC5, CHR 0xB8, CHR 0xC2, CHR 0xB5]"

definition STUDENT2_AVATAR :: string where
  "STUDENT2_AVATAR =
     [CHR 0xC4, CHR 0x9F, CHR 0xC5, CHR 0xB8, CHR 0xC2, CHR 0xA7, CHR 0xE2, CHR 0x80,
      CHR 0x98, CHR 0xC3, CHR 0xA2, CHR 0xE2, CHR 0x82, CHR 0xAC, CHR 0xC4, CHR 0x9F,
      CHR 0xC5, CHR 0xB8, CHR 0xE2, CHR 0x80, CHR 0x99, CHR 0xC2, CHR 0xBB]"

definition participants_ui :: "step_args \<Rightarrow> ui_participant list" where
  "participants_ui a =
     [\<lparr>name = ''Professor Maya'', model = teacher_model a, prompt = teacher_prompt a,
        config = [''temperature'' \<mapsto> teacher_temp a, ''top_p'' \<mapsto> teacher_top_p a,
                  ''max_tokens'' \<mapsto> 150],
        role_tag = ''Teacher'', source = teacher_source a, avatar = TEACHER_AVATAR\<rparr>,
      \<lparr>name = ''Curious George'', model = student1_model a, prompt = student1_prompt a,
        config = [''temperature'' \<mapsto> student1_temp a, ''top_p'' \<mapsto> student1_top_p a,
                  ''max_tokens'' \<mapsto> 100],
        role_tag = ''Student'', source = student1_source a, avatar = STUDENT1_AVATAR\<rparr>,
      \<lparr>name = ''Handson Alex'', model = student2_model a, prompt = student2_prompt a,
        config = [''temperature'' \<mapsto> student2_temp a, ''top_p'' \<mapsto> student2_top_p a,
                  ''max_tokens'' \<mapsto> 100],
        role_tag = ''Student'', source = student2_source a, avatar = STUDENT2_AVATAR\<rparr>]"

text \<open>
  The state of the generator between two calls of \<^verbatim>\<open>next\<close>: where it stands (not yet
  started, suspended at the \<^verbatim>\<open>yield\<close>, or finished) and its local variables
  (\<open>turn_var\<close> is the variable \<^verbatim>\<open>turn\<close>).
\<close>

datatype gen_pc = NotStarted | AtYield | Done

record gen_state =
  pc :: gen_pc
  turn_var :: int
  conversation_history_internal :: "ui_entry list"
  messages :: "chat_message list"

definition gen_start :: gen_state where
  "gen_start =
     \<lparr>pc = NotStarted, turn_var = 0, conversation_history_internal = [], messages = []\<rparr>"

text \<open>
  One call of \<^verbatim>\<open>next\<close> on the generator, with the list \<^verbatim>\<open>participants\<close> as an
  argument. Resuming after the \<^verbatim>\<open>yield\<close> first runs \<^verbatim>\<open>turn += 1\<close> (and the pacing
  sleep), then the loop test. The result is the yielded list (\<open>Some\<close>), the end of the
  iteration (\<open>None\<close>, Python's \<^verbatim>\<open>StopIteration\<close>), or what was raised.
\<close>

definition gen_next ::
  "backend \<Rightarrow> step_args \<Rightarrow> ui_participant list \<Rightarrow> gen_state \<Rightarrow> request list
     \<Rightarrow> (raised + chat_message list option) \<times> gen_state \<times> request list" where
  "gen_next be a participants s calls =
     (if pc s = Done then (Inr None, s, calls)
      else
        let t = (if pc s = AtYield then turn_var s + 1 else turn_var s)
        in if t < max_turns a then
             (case getitem participants (t mod 3) of
                Inl e \<Rightarrow> (Inl e, s\<lparr>pc := Done, turn_var := t\<rparr>, calls)
              | Inr p \<Rightarrow>
                  (case call_llm be calls (model p)
                          [\<lparr>role = ''system'', content = prompt p\<rparr>,
                           \<lparr>role = ''user'',
                            content = ui_user_prompt (topic a) (name p)
                                        (conversation_history_internal s)\<rparr>]
                          (config p) (source p) (ollama_url a) (ui_api_key a) of
                     (Inl e, calls') \<Rightarrow> (Inl e, s\<lparr>pc := Done, turn_var := t\<rparr>, calls')
                   | (Inr response_text, calls') \<Rightarrow>
                       (let history' = conversation_history_internal s @
                              [\<lparr>entry_name = name p, entry_content = response_text\<rparr>];
                            formatted_content = ''**'' @ name p @ ''** '' @ avatar p @ '':''
                              @ nl @ nl @ response_text;
                            messages' = messages s @
                              [\<lparr>role = ''assistant'', content = formatted_content\<rparr>]
                        in (Inr (Some messages'),
                            \<lparr>pc = AtYield, turn_var = t,
                             conversation_history_internal = history',
                             messages = messages'\<rparr>,
                            calls'))))
           else (Inr None, s\<lparr>pc := Done, turn_var := t\<rparr>, calls))"

text \<open>
  The consumer: the UI framework iterates the generator until it is exhausted. The result
  is the list of yielded values, what was raised if anything, the final generator state
  and the request log.
\<close>

function iterate_generator ::
  "backend \<Rightarrow> step_args \<Rightarrow> ui_participant list \<Rightarrow> gen_state \<Rightarrow> request list
     \<Rightarrow> chat_message list list \<times> raised option \<times> gen_state \<times> request list" where
  "iterate_generator be a participants s calls =
     (case gen_next be a participants s calls of
        (Inl e, s', calls') \<Rightarrow> ([], Some e, s', calls')
      | (Inr None, s', calls') \<Rightarrow> ([], None, s', calls')
      | (Inr (Some y), s', calls') \<Rightarrow>
          (case iterate_generator be a participants s' calls' of
             (ys, r, s'', calls'') \<Rightarrow> (y # ys, r, s'', calls'')))"
  by pat_completeness auto
termination
  by (relation "measure (\<lambda>(be, a, ps, s, calls).
          nat (max_turns a - (if pc s = AtYield then turn_var s + 1 else turn_var s)))")
     (auto simp: gen_next_def Let_def split: if_splits sum.splits prod.splits)

declare iterate_generator.simps [simp del]

section \<open>Notions used in the statements\<close>

text \<open>
  What the proofs need of a number format: the rounding is monotone, idempotent, keeps
  zero and keeps in-range values in range, and the prices of the table are in range.
\<close>

definition float_ok :: "float_format \<Rightarrow> bool" where
  "float_ok F \<longleftrightarrow>
     mono (rnd F) \<and> rnd F 0 = 0 \<and> (\<forall>x. rnd F (rnd F x) = rnd F x) \<and> 12 < huge F \<and>
     (\<forall>x. \<bar>x\<bar> < huge F \<longrightarrow> \<bar>rnd F x\<bar> < huge F)"

text \<open>Exact arithmetic below the overflow threshold of IEEE 754 doubles.\<close>

definition ideal_format :: float_format where
  "ideal_format = \<lparr>rnd = (\<lambda>x. x), huge = 2 ^ 1024 - 2 ^ 970\<rparr>"

text \<open>
  A sequence of recordings on a tracker, one \<open>add_interaction\<close> after the other, the
  caller going on after a call that raised.
\<close>

fun record_all ::
  "float_format \<Rightarrow> TokenTracker \<Rightarrow> (string \<times> int \<times> int) list \<Rightarrow> TokenTracker" where
  "record_all F t [] = t"
| "record_all F t ((m, i, j) # xs) = record_all F (snd (add_interaction F t m i j)) xs"

text \<open>
  The float sum of a list, added up from the left starting at \<^verbatim>\<open>0.0\<close>, every addition
  rounded: what \<^verbatim>\<open>self.total_cost += total\<close> accumulates over the recorded costs.
\<close>

definition float_sum :: "float_format \<Rightarrow> pyfloat list \<Rightarrow> pyfloat" where
  "float_sum F xs = foldl (fadd F) (Finite 0) xs"

text \<open>A float that is zero, positive or plus infinity.\<close>

fun nonneg_float :: "pyfloat \<Rightarrow> bool" where
  "nonneg_float (Finite x) = (0 \<le> x)"
| "nonneg_float PosInf = True"
| "nonneg_float NegInf = False"
| "nonneg_float NaN = False"

text \<open>The real value of a finite float (zero for the others), and being finite.\<close>

fun fval :: "pyfloat \<Rightarrow> real" where
  "fval (Finite x) = x"
| "fval PosInf = 0"
| "fval NegInf = 0"
| "fval NaN = 0"

fun is_finite :: "pyfloat \<Rightarrow> bool" where
  "is_finite (Finite x) = True"
| "is_finite PosInf = False"
| "is_finite NegInf = False"
| "is_finite NaN = False"

text \<open>A float that the format can hold.\<close>

fun representable :: "float_format \<Rightarrow> pyfloat \<Rightarrow> bool" where
  "representable F (Finite x) = (rnd F x = x \<and> \<bar>x\<bar> < huge F)"
| "representable F PosInf = True"
| "representable F NegInf = True"
| "representable F NaN = True"

text \<open>The aggregates of a tracker agree with its list of interactions.\<close>

definition tracker_inv :: "float_format \<Rightarrow> TokenTracker \<Rightarrow> bool" where
  "tracker_inv F t \<longleftrightarrow>
     total_input_tokens t = sum_list (map input_tokens (interactions t)) \<and>
     total_output_tokens t = sum_list (map output_tokens (interactions t)) \<and>
     total_cost t = float_sum F (map cost (interactions t))"

text \<open>No recorded cost is negative or not-a-number.\<close>

definition costs_nonneg :: "TokenTracker \<Rightarrow> bool" where
  "costs_nonneg t \<longleftrightarrow> list_all (\<lambda>x. nonneg_float (cost x)) (interactions t)"

text \<open>An endpoint on which every call raises the same \<^verbatim>\<open>Exception\<close>.\<close>

definition failing_backend :: backend where
  "failing_backend = (\<lambda>cl calls req. Inl (Exception ''boom''))"

text \<open>
  What turn \<open>i\<close> of a run of the batch loop did, in terms of the final history \<open>h\<close> and
  request log \<open>c\<close>: the entry is named after participant \<open>i mod 3\<close>, and its text is
  what \<open>get_next_response\<close> returned for that participant on the first \<open>i\<close> entries.
\<close>

definition turn_ok :: "backend \<Rightarrow> participant list \<Rightarrow> entry list \<Rightarrow> request list \<Rightarrow> nat \<Rightarrow> bool" where
  "turn_ok be ps h c i \<longleftrightarrow>
     speaker (h ! i) = name (ps ! (i mod 3)) \<and>
     get_next_response be (take i c) (model (ps ! (i mod 3))) (prompt (ps ! (i mod 3)))
         (name (ps ! (i mod 3))) (take i h) (Some (config (ps ! (i mod 3))))
       = (Inr (message (h ! i)), take (Suc i) c)"

text \<open>The request issued in turn \<open>i\<close>.\<close>

definition request_at :: "participant list \<Rightarrow> entry list \<Rightarrow> nat \<Rightarrow> request" where
  "request_at ps h i =
     completion_request (model (ps ! (i mod 3)))
       (build_messages (prompt (ps ! (i mod 3))) (name (ps ! (i mod 3))) (take i h))
       (config (ps ! (i mod 3)))"

text \<open>The loop invariant of \<open>conversation_loop\<close>.\<close>

definition loop_inv :: "backend \<Rightarrow> participant list \<Rightarrow> int \<Rightarrow> int \<Rightarrow> entry list \<Rightarrow> request list \<Rightarrow> bool" where
  "loop_inv be ps mt t h c \<longleftrightarrow>
     0 \<le> t \<and> t \<le> max 0 mt \<and> int (length h) = t \<and> length c = length h \<and>
     (\<forall>i<length h. turn_ok be ps h c i)"

text \<open>
  The turn that a call of \<^verbatim>\<open>next\<close> works on: resuming at the \<^verbatim>\<open>yield\<close> increments
  \<^verbatim>\<open>turn\<close> first.
\<close>

definition eff_turn :: "gen_state \<Rightarrow> int" where
  "eff_turn s = (if pc s = AtYield then turn_var s + 1 else turn_var s)"

text \<open>The two messages that the loop body of \<^verbatim>\<open>run_conversation_step\<close> sends.\<close>

definition ui_prompt_messages :: "step_args \<Rightarrow> ui_participant \<Rightarrow> ui_entry list \<Rightarrow> chat_message list" where
  "ui_prompt_messages a p h =
     [\<lparr>role = ''system'', content = prompt p\<rparr>,
      \<lparr>role = ''user'', content = ui_user_prompt (topic a) (name p) h\<rparr>]"

text \<open>What turn \<open>i\<close> of a run of the generator did, and the request it issued.\<close>

definition ui_turn_ok ::
  "backend \<Rightarrow> step_args \<Rightarrow> ui_participant list \<Rightarrow> ui_entry list \<Rightarrow> request list \<Rightarrow> nat \<Rightarrow> bool" where
  "ui_turn_ok be a ps h c i \<longleftrightarrow>
     entry_name (h ! i) = name (ps ! (i mod 3)) \<and>
     call_llm be (take i c) (model (ps ! (i mod 3)))
         (ui_prompt_messages a (ps ! (i mod 3)) (take i h))
         (config (ps ! (i mod 3))) (source (ps ! (i mod 3))) (ollama_url a) (ui_api_key a)
       = (Inr (entry_content (h ! i)), take (Suc i) c)"

definition ui_request_at :: "step_args \<Rightarrow> ui_participant list \<Rightarrow> ui_entry list \<Rightarrow> nat \<Rightarrow> request" where
  "ui_request_at a ps h i =
     completion_request (model (ps ! (i mod 3)))
       (ui_prompt_messages a (ps ! (i mod 3)) (take i h)) (config (ps ! (i mod 3)))"

text \<open>The chat message that the generator appends for a reply.\<close>

definition chat_line :: "ui_participant \<Rightarrow> string \<Rightarrow> chat_message" where
  "chat_line p reply =
     \<lparr>role = ''assistant'',
      content = ''**'' @ name p @ ''** '' @ avatar p @ '':'' @ nl @ nl @ reply\<rparr>"

text \<open>The invariant of the generator loop, with the values yielded so far.\<close>

definition gen_inv ::
  "backend \<Rightarrow> step_args \<Rightarrow> ui_participant list \<Rightarrow> gen_state \<Rightarrow> request list
     \<Rightarrow> chat_message list list \<Rightarrow> bool" where
  "gen_inv be a ps s c acc \<longleftrightarrow>
     pc s \<noteq> Done \<and> 0 \<le> eff_turn s \<and> eff_turn s \<le> max 0 (max_turns a) \<and>
     int (length (conversation_history_internal s)) = eff_turn s \<and>
     length c = length (conversation_history_internal s) \<and>
     length (messages s) = length (conversation_history_internal s) \<and>
     length acc = length (conversation_history_internal s) \<and>
     (\<forall>i<length (conversation_history_internal s).
        ui_turn_ok be a ps (conversation_history_internal s) c i \<and>
        messages s ! i = chat_line (ps ! (i mod 3)) (entry_content (conversation_history_internal s ! i)) \<and>
        acc ! i = take (Suc i) (messages s))"

text \<open>Endpoints and inputs for concrete runs.\<close>

text \<open>An endpoint that answers every call with the name of the model asked.\<close>

definition echo_backend :: backend where
  "echo_backend = (\<lambda>cl calls req. Inr \<lparr>choices = [req_model req], usage = None\<rparr>)"

text \<open>The values that the UI shows before the user changes anything.\<close>

definition ui_defaults :: step_args where
  "ui_defaults =
     \<lparr>topic = INITIAL_TOPIC,
      teacher_source = ''Ollama'', teacher_model = ''llama3.2:latest'',
      teacher_temp = 0.7, teacher_top_p = 0.9, teacher_prompt = TEACHER_PROMPT,
      student1_source = ''Ollama'', student1_model = ''llama3.2:1b'',
      student1_temp = 0.4, student1_top_p = 0.85, student1_prompt = STUDENT1_PROMPT,
      student2_source = ''Ollama'', student2_model = ''gemma3:1b'',
      student2_temp = 0.9, student2_top_p = 0.9, student2_prompt = STUDENT2_PROMPT,
      max_turns = 20, ollama_url = ''http://localhost:11434/v1'', ui_api_key = [],
      current_messages = []\<rparr>"

text \<open>An endpoint whose second call raises, and that answers all the others.\<close>

definition flaky_backend :: backend where
  "flaky_backend = (\<lambda>cl calls req.
     if length calls = 1 then Inl (Exception ''boom'')
     else Inr \<lparr>choices = [req_model req], usage = None\<rparr>)"

text \<open>The client that \<open>call_llm\<close> builds for a source.\<close>

definition llm_client :: "string \<Rightarrow> string \<Rightarrow> string \<Rightarrow> client" where
  "llm_client src url key =
     (if src = ''OpenAI API'' then \<lparr>base_url = None, api_key = key\<rparr>
      else \<lparr>base_url = Some url, api_key = ''ollama''\<rparr>)"

text \<open>The (speaker, content) pairs of the two kinds of history.\<close>

definition pairs_main :: "entry list \<Rightarrow> (string \<times> string) list" where
  "pairs_main tr = map (\<lambda>e. (speaker e, message e)) tr"

definition pairs_ui :: "ui_entry list \<Rightarrow> (string \<times> string) list" where
  "pairs_ui h = map (\<lambda>e. (entry_name e, entry_content e)) h"

text \<open>Every call returns a response with at least one choice.\<close>

definition answers :: "backend \<Rightarrow> bool" where
  "answers be \<longleftrightarrow> (\<forall>cl c r. \<exists>resp. be cl c r = Inr resp \<and> choices resp \<noteq> [])"

text \<open>
  A participant of \<^verbatim>\<open>main.py\<close> and one of \<^verbatim>\<open>app.py\<close> are the same: same name, model
  and prompt, and the same values for the three sampling parameters that are sent.
\<close>

definition same_participant :: "participant \<Rightarrow> ui_participant \<Rightarrow> bool" where
  "same_participant p q \<longleftrightarrow>
     name p = name q \<and> model p = model q \<and> prompt p = prompt q \<and>
     dict_get (config p) ''temperature'' 0.7 = dict_get (config q) ''temperature'' 0.7 \<and>
     dict_get (config p) ''top_p'' 0.9 = dict_get (config q) ''top_p'' 0.9 \<and>
     dict_get (config p) ''max_tokens'' 150 = dict_get (config q) ''max_tokens'' 150"

text \<open>
  The endpoint answers through the client of each UI participant as it does through the
  client of \<^verbatim>\<open>main.py\<close>.
\<close>

definition same_provider :: "backend \<Rightarrow> step_args \<Rightarrow> bool" where
  "same_provider be a \<longleftrightarrow>
     list_all (\<lambda>q. be (llm_client (source q) (ollama_url a) (ui_api_key a)) = be client_main)
       (participants_ui a)"

section \<open>The prompt synthesizer\<close>

lemma join_member_sublist: "x \<in> set xs \<Longrightarrow> sublist x (join sep xs)"
proof (induction sep xs rule: join.induct)
  case (3 sep a b ys)
  show ?case
  proof (cases "x = a")
    case True
    then show ?thesis by simp
  next
    case False
    with 3 have "sublist x (join sep (b # ys))" by simp
    then obtain ps ss where "join sep (b # ys) = ps @ x @ ss"
      by (auto simp: sublist_def)
    then have "join sep (a # b # ys) = (a @ sep @ ps) @ x @ ss" by simp
    then show ?thesis unfolding sublist_def by blast
  qed
qed simp_all

lemma sublist_in_context: "sublist x y \<Longrightarrow> sublist x (pre @ y @ post)"
proof -
  assume "sublist x y"
  then obtain ps ss where "y = ps @ x @ ss" by (auto simp: sublist_def)
  then have "pre @ y @ post = (pre @ ps) @ x @ (ss @ post)" by simp
  then show ?thesis unfolding sublist_def by blast
qed

text \<open>
  C5 (as amended). With an empty transcript the user message is the fixed
  topic-introduction text with the name of the participant filled in: it is the same for
  two participants exactly when they have the same name.
\<close>

theorem opening_prompt_by_name:
  "user_prompt (name p) [] =
     ''You are '' @ name p @ ''.'' @ nl @ ''The topic to discuss is: '' @ INITIAL_TOPIC
     @ nl @ nl
     @ ''Start the conversation by introducing the topic and asking an opening question.''
   \<and> (user_prompt (name p) [] = user_prompt (name q) [] \<longleftrightarrow> name p = name q)"
  by (simp add: user_prompt_def)

text \<open>
  C5 as stated fails: the opening user messages for Professor Maya and for Curious George
  differ.
\<close>

theorem opening_prompt_differs:
  "user_prompt (name (participants_main ! 0)) [] \<noteq> user_prompt (name (participants_main ! 1)) []"
  by (simp add: user_prompt_def participants_main_def)

text \<open>
  C6. With a non-empty transcript the user message names the participant as the
  speaker, then holds the whole transcript, every entry rendered as
  \<^verbatim>\<open><speaker>: <content>\<close> and consecutive entries separated by a blank line, then asks
  the participant to respond naturally; every entry occurs in it in full.
\<close>

theorem history_prompt_complete:
  assumes "history \<noteq> []"
  shows "user_prompt nm history =
           ''You are '' @ nm @ ''.'' @ nl @ nl @ ''The conversation so far is:'' @ nl
           @ join (nl @ nl) (map (\<lambda>e. speaker e @ '': '' @ message e) history)
           @ nl @ nl
           @ ''Now respond with what you would like to say next, as '' @ nm
           @ ''. Be natural and conversational.''
         \<and> (\<forall>e \<in> set history. sublist (speaker e @ '': '' @ message e) (user_prompt nm history))"
proof -
  let ?lines = "map (\<lambda>e. speaker e @ '': '' @ message e) history"
  let ?pre = "''You are '' @ nm @ ''.'' @ nl @ nl @ ''The conversation so far is:'' @ nl"
  let ?post = "nl @ nl @ ''Now respond with what you would like to say next, as '' @ nm
               @ ''. Be natural and conversational.''"
  have eq: "user_prompt nm history = ?pre @ join (nl @ nl) ?lines @ ?post"
    using assms by (simp add: user_prompt_def format_conversation_def)
  have "sublist (speaker e @ '': '' @ message e) (user_prompt nm history)"
    if "e \<in> set history" for e
  proof -
    from that have "speaker e @ '': '' @ message e \<in> set ?lines" by force
    then have "sublist (speaker e @ '': '' @ message e) (join (nl @ nl) ?lines)"
      by (rule join_member_sublist)
    then show ?thesis unfolding eq by (rule sublist_in_context)
  qed
  with eq show ?thesis by simp
qed

theorem history_prompt_complete_witness:
  "[\<lparr>speaker = ''A'', message = ''hi''\<rparr>, \<lparr>speaker = ''B'', message = ''yo''\<rparr>] \<noteq> []
   \<and> user_prompt ''C'' [\<lparr>speaker = ''A'', message = ''hi''\<rparr>, \<lparr>speaker = ''B'', message = ''yo''\<rparr>] =
       ''You are C.'' @ nl @ nl @ ''The conversation so far is:'' @ nl
       @ ''A: hi'' @ nl @ nl @ ''B: yo'' @ nl @ nl
       @ ''Now respond with what you would like to say next, as C. Be natural and conversational.''
   \<and> sublist ''B: yo''
        (user_prompt ''C'' [\<lparr>speaker = ''A'', message = ''hi''\<rparr>, \<lparr>speaker = ''B'', message = ''yo''\<rparr>])"
proof -
  let ?h = "[\<lparr>speaker = ''A'', message = ''hi''\<rparr>, \<lparr>speaker = ''B'', message = ''yo''\<rparr>]"
  have ne: "?h \<noteq> []" by simp
  note th = history_prompt_complete [OF ne, of "''C''"]
  from th have a: "user_prompt ''C'' ?h =
       ''You are C.'' @ nl @ nl @ ''The conversation so far is:'' @ nl
       @ ''A: hi'' @ nl @ nl @ ''B: yo'' @ nl @ nl
       @ ''Now respond with what you would like to say next, as C. Be natural and conversational.''"
    by simp
  from th have "\<forall>e \<in> set ?h. sublist (speaker e @ '': '' @ message e) (user_prompt ''C'' ?h)"
    by (rule conjunct2)
  then have b: "sublist ''B: yo'' (user_prompt ''C'' ?h)" by simp
  from ne a b show ?thesis by (intro conjI)
qed

section \<open>The provider client\<close>

text \<open>
  C2 (as amended). When the chat-completion call raises an \<^verbatim>\<open>Exception\<close> with text
  \<open>cause\<close>, no exception reaches the caller: \<open>call_ollama\<close> and \<open>call_openai\<close> return
  \<^verbatim>\<open>[Error calling <model>: <cause>]\<close>, and \<open>call_llm\<close> of the UI variant returns
  \<^verbatim>\<open>[Error calling <model> via <source>: <cause>]\<close>.
\<close>

theorem provider_error_becomes_text:
  assumes "\<forall>cl r. be cl calls r = Inl (Exception cause)"
  shows "fst (call_ollama be calls m msgs config_opt) =
           Inr (''[Error calling '' @ m @ '': '' @ cause @ '']'')
       \<and> fst (call_openai F be env_key calls m msgs cfg tracker) =
           Inr (''[Error calling '' @ m @ '': '' @ cause @ '']'')
       \<and> fst (call_llm be calls m msgs cfg src url key) =
           Inr (''[Error calling '' @ m @ '' via '' @ src @ '': '' @ cause @ '']'')"
  using assms
  by (simp add: call_ollama_def call_openai_def call_llm_def Let_def except_Exception_def)

theorem provider_error_becomes_text_witness:
  "(\<forall>cl r. failing_backend cl [] r = Inl (Exception ''boom''))
   \<and> fst (call_ollama failing_backend [] ''m'' [] None) = Inr ''[Error calling m: boom]''
   \<and> fst (call_openai ideal_format failing_backend ''k'' [] ''m'' [] TEACHER_CONFIG TokenTracker_init)
       = Inr ''[Error calling m: boom]''
   \<and> fst (call_llm failing_backend [] ''m'' [] TEACHER_CONFIG ''Ollama'' ''u'' ''k'')
       = Inr ''[Error calling m via Ollama: boom]''"
  using provider_error_becomes_text
    [of failing_backend "[]" "''boom''" "''m''" "[]" None ideal_format "''k''" TEACHER_CONFIG
        TokenTracker_init "''Ollama''" "''u''" "''k''"]
  by (simp add: failing_backend_def)

text \<open>
  C2 as stated fails for the UI variant: the text returned by \<open>call_llm\<close> for model
  \<^verbatim>\<open>m\<close> does not start with \<^verbatim>\<open>[Error calling m: \<close>.
\<close>

theorem ui_error_text_names_source:
  "fst (call_llm failing_backend [] ''m'' [] TEACHER_CONFIG ''Ollama''
          ''http://localhost:11434/v1'' ''k'')
     = Inr ''[Error calling m via Ollama: boom]''
   \<and> \<not> prefix ''[Error calling m: '' ''[Error calling m via Ollama: boom]''"
  by (simp add: call_llm_def failing_backend_def except_Exception_def Let_def)

section \<open>The batch loop\<close>

lemma conversation_loop_invariant:
  assumes run: "conversation_loop be ps mt t h calls = (res, calls')"
    and init: "I t h calls"
    and step: "\<And>t h c p r c'. I t h c \<Longrightarrow> t < mt \<Longrightarrow> getitem ps (t mod 3) = Inr p \<Longrightarrow>
       get_next_response be c (model p) (prompt p) (name p) h (Some (config p)) = (Inr r, c')
       \<Longrightarrow> I (t + 1) (h @ [\<lparr>speaker = name p, message = r\<rparr>]) c'"
  shows "case res of
           Inr tr \<Rightarrow> \<exists>t'. I t' tr calls' \<and> \<not> t' < mt
         | Inl e \<Rightarrow> \<exists>t' h' c. I t' h' c \<and> t' < mt \<and>
             (getitem ps (t' mod 3) = Inl e \<and> calls' = c \<or>
              (\<exists>p. getitem ps (t' mod 3) = Inr p \<and>
                 get_next_response be c (model p) (prompt p) (name p) h' (Some (config p))
                   = (Inl e, calls')))"
  using run init
proof (induction "nat (mt - t)" arbitrary: t h calls)
  case 0
  then have "\<not> t < mt" by simp
  with 0 show ?case
    by (auto simp: conversation_loop.simps[of be ps mt t h calls] split: sum.splits)
next
  case (Suc n)
  note unfold = conversation_loop.simps[of be ps mt t h calls]
  from Suc have lt: "t < mt" by simp
  show ?case
  proof (cases "getitem ps (t mod 3)")
    case (Inl e)
    with lt Suc.prems have "res = Inl e" "calls' = calls" by (auto simp: unfold)
    with lt Inl Suc.prems(2) show ?thesis by auto
  next
    case (Inr p)
    obtain r c' where g: "get_next_response be calls (model p) (prompt p) (name p) h (Some (config p)) = (r, c')"
      by (cases "get_next_response be calls (model p) (prompt p) (name p) h (Some (config p))")
    show ?thesis
    proof (cases r)
      case (Inl e)
      with lt Inr g Suc.prems have "res = Inl e" "calls' = c'" by (auto simp: unfold)
      with lt Inr g Inl Suc.prems(2) show ?thesis by auto
    next
      case r: (Inr resp)
      have eq: "conversation_loop be ps mt (t + 1) (h @ [\<lparr>speaker = name p, message = resp\<rparr>]) c' = (res, calls')"
        using lt Inr g r Suc.prems(1) by (simp add: unfold)
      have I': "I (t + 1) (h @ [\<lparr>speaker = name p, message = resp\<rparr>]) c'"
        using step[OF Suc.prems(2) lt Inr] g r by simp
      have n: "n = nat (mt - (t + 1))" using Suc.hyps(2) by simp
      show ?thesis by (rule Suc.hyps(1)[OF n eq I'])
    qed
  qed
qed

lemma get_next_response_calls:
  "snd (get_next_response be c m sp nm h (Some cfg)) = c @ [completion_request m (build_messages sp nm h) cfg]"
  by (simp add: get_next_response_def call_ollama_def Let_def)

lemma getitem_mod3:
  "3 \<le> length ps \<Longrightarrow> 0 \<le> t \<Longrightarrow> getitem ps (t mod 3) = Inr (ps ! (nat t mod 3))"
  by (simp add: getitem_def nat_mod_distrib)

lemma loop_inv_step:
  assumes len: "3 \<le> length ps"
    and inv: "loop_inv be ps mt t h c" and lt: "t < mt" and gi: "getitem ps (t mod 3) = Inr p"
    and g: "get_next_response be c (model p) (prompt p) (name p) h (Some (config p)) = (Inr r, c')"
  shows "loop_inv be ps mt (t + 1) (h @ [\<lparr>speaker = name p, message = r\<rparr>]) c'"
proof -
  from inv have t0: "0 \<le> t" and lh: "int (length h) = t" and lc: "length c = length h"
    and old: "\<forall>i<length h. turn_ok be ps h c i"
    by (auto simp: loop_inv_def)
  have p: "p = ps ! (length h mod 3)"
    using getitem_mod3[OF len t0] gi lh by auto
  have c': "c' = c @ [completion_request (model p) (build_messages (prompt p) (name p) h) (config p)]"
    using get_next_response_calls[of be c "model p" "prompt p" "name p" h "config p"] g by simp
  have "turn_ok be ps (h @ [\<lparr>speaker = name p, message = r\<rparr>]) c' i" if "i < Suc (length h)" for i
  proof (cases "i < length h")
    case True
    with old have "turn_ok be ps h c i" by simp
    with True lc show ?thesis by (simp add: turn_ok_def c' nth_append)
  next
    case False
    with that have i: "i = length h" by simp
    show ?thesis using g lc by (simp add: turn_ok_def i p[symmetric] c')
  qed
  then show ?thesis using t0 lh lc lt by (simp add: loop_inv_def c')
qed

lemma turn_ok_request:
  assumes "turn_ok be ps h c i" and "i < length c"
  shows "c ! i = request_at ps h i"
proof -
  let ?p = "ps ! (i mod 3)"
  from assms(1) have "snd (get_next_response be (take i c) (model ?p) (prompt ?p) (name ?p) (take i h) (Some (config ?p))) = take (Suc i) c"
    by (simp add: turn_ok_def)
  then have "take (Suc i) c = take i c @ [request_at ps h i]"
    by (simp add: get_next_response_calls request_at_def)
  moreover have "take (Suc i) c = take i c @ [c ! i]"
    using assms(2) by (rule take_Suc_conv_app_nth)
  ultimately show ?thesis by simp
qed

lemma conversation_loop_trace:
  assumes run: "conversation_loop be ps mt 0 [] [] = (res, calls')"
    and len: "3 \<le> length ps"
  shows "\<exists>h. (\<forall>tr. res = Inr tr \<longrightarrow> h = tr \<and> int (length tr) = max 0 mt \<and> length calls' = length tr)
           \<and> (\<forall>i<length h. turn_ok be ps h calls' i)
           \<and> (\<forall>i<length calls'. i \<le> length h \<and> calls' ! i = request_at ps h i)"
proof -
  have init: "loop_inv be ps mt 0 [] []" by (simp add: loop_inv_def)
  have *: "case res of
           Inr tr \<Rightarrow> \<exists>t'. loop_inv be ps mt t' tr calls' \<and> \<not> t' < mt
         | Inl e \<Rightarrow> \<exists>t' h' c. loop_inv be ps mt t' h' c \<and> t' < mt \<and>
             (getitem ps (t' mod 3) = Inl e \<and> calls' = c \<or>
              (\<exists>p. getitem ps (t' mod 3) = Inr p \<and>
                 get_next_response be c (model p) (prompt p) (name p) h' (Some (config p))
                   = (Inl e, calls')))"
    by (rule conversation_loop_invariant[where I = "loop_inv be ps mt", OF run init])
       (rule loop_inv_step[OF len])
  show ?thesis
  proof (cases res)
    case (Inr tr)
    with * obtain t' where inv: "loop_inv be ps mt t' tr calls'" and "\<not> t' < mt" by auto
    then have a: "int (length tr) = max 0 mt" "length calls' = length tr"
      and ok: "\<forall>i<length tr. turn_ok be ps tr calls' i"
      by (auto simp: loop_inv_def)
    have "\<forall>i<length calls'. i \<le> length tr \<and> calls' ! i = request_at ps tr i"
      using a ok by (auto intro: turn_ok_request)
    with Inr a ok show ?thesis by auto
  next
    case (Inl e)
    with * obtain t' h' c where inv: "loop_inv be ps mt t' h' c" and lt: "t' < mt"
      and alt: "getitem ps (t' mod 3) = Inl e \<and> calls' = c \<or>
              (\<exists>p. getitem ps (t' mod 3) = Inr p \<and>
                 get_next_response be c (model p) (prompt p) (name p) h' (Some (config p))
                   = (Inl e, calls'))"
      by auto
    from inv have t0: "0 \<le> t'" and lh: "int (length h') = t'" and lc: "length c = length h'"
      and ok: "\<forall>i<length h'. turn_ok be ps h' c i"
      by (auto simp: loop_inv_def)
    let ?p = "ps ! (length h' mod 3)"
    have gi: "getitem ps (t' mod 3) = Inr ?p"
      using getitem_mod3[OF len t0] lh by auto
    with alt have g: "get_next_response be c (model ?p) (prompt ?p) (name ?p) h' (Some (config ?p)) = (Inl e, calls')"
      by auto
    have c': "calls' = c @ [request_at ps h' (length h')]"
      using get_next_response_calls[of be c "model ?p" "prompt ?p" "name ?p" h' "config ?p"] g
      by (simp add: request_at_def)
    have ok': "\<forall>i<length h'. turn_ok be ps h' calls' i"
      using ok lc by (simp add: turn_ok_def c')
    have "calls' ! i = request_at ps h' i" if "i < length calls'" for i
    proof (cases "i < length h'")
      case True
      then have "c ! i = request_at ps h' i" using ok lc by (auto intro: turn_ok_request)
      with True lc show ?thesis by (simp add: c' nth_append)
    next
      case False
      with that lc have "i = length c" by (simp add: c')
      then show ?thesis using lc by (simp add: c' nth_append)
    qed
    moreover have "i \<le> length h'" if "i < length calls'" for i
      using that lc by (simp add: c')
    ultimately show ?thesis using Inl ok' by auto
  qed
qed

section \<open>The generator loop\<close>

lemma gen_next_yield:
  assumes "gen_next be a ps s c = (Inr (Some y), s1, c1)"
  shows "pc s \<noteq> Done \<and> eff_turn s < max_turns a \<and> eff_turn s1 = eff_turn s + 1"
  using assms
  by (auto simp: gen_next_def eff_turn_def Let_def split: if_splits sum.splits prod.splits)

lemma iterate_generator_invariant:
  assumes run: "iterate_generator be a ps s c = (ys, r, s', c')"
    and init: "I s c acc"
    and step: "\<And>s c acc y s1 c1. I s c acc \<Longrightarrow> gen_next be a ps s c = (Inr (Some y), s1, c1)
                 \<Longrightarrow> I s1 c1 (acc @ [y])"
  shows "\<exists>s0 c0. I s0 c0 (acc @ ys) \<and>
           gen_next be a ps s0 c0 = ((case r of None \<Rightarrow> Inr None | Some e \<Rightarrow> Inl e), s', c')"
  using run init
proof (induction "nat (max_turns a - eff_turn s)" arbitrary: s c acc ys rule: less_induct)
  case less
  obtain res s1 c1 where g: "gen_next be a ps s c = (res, s1, c1)"
    by (cases "gen_next be a ps s c") auto
  show ?case
  proof (cases res)
    case (Inl e)
    with g less.prems(1) have "ys = []" "r = Some e" "s' = s1" "c' = c1"
      by (simp_all add: iterate_generator.simps[of be a ps s c])
    with g Inl less.prems(2) show ?thesis by auto
  next
    case (Inr v)
    show ?thesis
    proof (cases v)
      case None
      with Inr g less.prems(1) have "ys = []" "r = None" "s' = s1" "c' = c1"
        by (simp_all add: iterate_generator.simps[of be a ps s c])
      with g Inr None less.prems(2) show ?thesis by auto
    next
      case (Some y)
      obtain ys1 where rec: "iterate_generator be a ps s1 c1 = (ys1, r, s', c')" and ys: "ys = y # ys1"
        using g Inr Some less.prems(1)
        by (auto simp: iterate_generator.simps[of be a ps s c] split: prod.splits)
      have gy: "gen_next be a ps s c = (Inr (Some y), s1, c1)" using g Inr Some by simp
      have dec: "nat (max_turns a - eff_turn s1) < nat (max_turns a - eff_turn s)"
        using gen_next_yield[OF gy] by simp
      have I1: "I s1 c1 (acc @ [y])" by (rule step[OF less.prems(2) gy])
      from less.hyps[OF dec rec I1] show ?thesis by (simp add: ys)
    qed
  qed
qed


lemma call_llm_calls:
  "snd (call_llm be c m msgs cfg src url key) = c @ [completion_request m msgs cfg]"
  by (simp add: call_llm_def Let_def)

lemma gen_next_yield_cases:
  assumes "gen_next be a ps s c = (Inr (Some y), s1, c1)"
  shows "\<exists>p reply. getitem ps (eff_turn s mod 3) = Inr p \<and>
           call_llm be c (model p) (ui_prompt_messages a p (conversation_history_internal s))
              (config p) (source p) (ollama_url a) (ui_api_key a) = (Inr reply, c1) \<and>
           s1 = \<lparr>pc = AtYield, turn_var = eff_turn s,
                 conversation_history_internal = conversation_history_internal s @
                     [\<lparr>entry_name = name p, entry_content = reply\<rparr>],
                 messages = messages s @ [chat_line p reply]\<rparr> \<and>
           y = messages s @ [chat_line p reply]"
  using assms
  by (auto simp: gen_next_def eff_turn_def Let_def ui_prompt_messages_def chat_line_def
           split: if_splits sum.splits prod.splits)

lemma gen_next_stop_cases:
  assumes "gen_next be a ps s c = (Inr None, s', c')" and "pc s \<noteq> Done"
  shows "\<not> eff_turn s < max_turns a \<and> c' = c \<and>
         conversation_history_internal s' = conversation_history_internal s \<and>
         messages s' = messages s"
  using assms
  by (auto simp: gen_next_def eff_turn_def Let_def split: if_splits sum.splits prod.splits)

lemma gen_next_raise_cases:
  assumes "gen_next be a ps s c = (Inl e, s', c')"
  shows "conversation_history_internal s' = conversation_history_internal s \<and>
         messages s' = messages s \<and>
         (getitem ps (eff_turn s mod 3) = Inl e \<and> c' = c \<or>
          (\<exists>p. getitem ps (eff_turn s mod 3) = Inr p \<and>
             call_llm be c (model p) (ui_prompt_messages a p (conversation_history_internal s))
               (config p) (source p) (ollama_url a) (ui_api_key a) = (Inl e, c')))"
  using assms
  by (auto simp: gen_next_def eff_turn_def Let_def ui_prompt_messages_def
           split: if_splits sum.splits prod.splits)

lemma gen_inv_step:
  assumes len: "3 \<le> length ps"
    and inv: "gen_inv be a ps s c acc"
    and g: "gen_next be a ps s c = (Inr (Some y), s1, c1)"
  shows "gen_inv be a ps s1 c1 (acc @ [y])"
proof -
  let ?h = "conversation_history_internal s"
  from inv have t0: "0 \<le> eff_turn s" and lh: "int (length ?h) = eff_turn s"
    and lc: "length c = length ?h" and lm: "length (messages s) = length ?h"
    and la: "length acc = length ?h"
    and old: "\<forall>i<length ?h. ui_turn_ok be a ps ?h c i \<and>
        messages s ! i = chat_line (ps ! (i mod 3)) (entry_content (?h ! i)) \<and>
        acc ! i = take (Suc i) (messages s)"
    by (auto simp: gen_inv_def)
  from gen_next_yield[OF g] have lt: "eff_turn s < max_turns a" by simp
  from gen_next_yield_cases[OF g] obtain p reply where
    gi: "getitem ps (eff_turn s mod 3) = Inr p" and
    call: "call_llm be c (model p) (ui_prompt_messages a p ?h)
              (config p) (source p) (ollama_url a) (ui_api_key a) = (Inr reply, c1)" and
    s1: "s1 = \<lparr>pc = AtYield, turn_var = eff_turn s,
                 conversation_history_internal = ?h @ [\<lparr>entry_name = name p, entry_content = reply\<rparr>],
                 messages = messages s @ [chat_line p reply]\<rparr>" and
    y: "y = messages s @ [chat_line p reply]"
    by blast
  have "nat (eff_turn s) = length ?h" using lh by linarith
  then have p: "p = ps ! (length ?h mod 3)"
    using getitem_mod3[OF len t0] gi by simp
  have c1: "c1 = c @ [completion_request (model p) (ui_prompt_messages a p ?h) (config p)]"
    using call_llm_calls[of be c "model p" "ui_prompt_messages a p ?h" "config p" "source p"
            "ollama_url a" "ui_api_key a"] call by simp
  let ?h1 = "?h @ [\<lparr>entry_name = name p, entry_content = reply\<rparr>]"
  let ?m1 = "messages s @ [chat_line p reply]"
  have "ui_turn_ok be a ps ?h1 c1 i \<and>
        ?m1 ! i = chat_line (ps ! (i mod 3)) (entry_content (?h1 ! i)) \<and>
        (acc @ [y]) ! i = take (Suc i) ?m1" if "i < Suc (length ?h)" for i
  proof (cases "i < length ?h")
    case True
    with old have o: "ui_turn_ok be a ps ?h c i"
      "messages s ! i = chat_line (ps ! (i mod 3)) (entry_content (?h ! i))"
      "acc ! i = take (Suc i) (messages s)" by simp_all
    from o(1) True lc have "ui_turn_ok be a ps ?h1 c1 i"
      by (simp add: ui_turn_ok_def c1 nth_append)
    moreover from o(2) True lm have "?m1 ! i = chat_line (ps ! (i mod 3)) (entry_content (?h1 ! i))"
      by (simp add: nth_append)
    moreover from o(3) True lm la have "(acc @ [y]) ! i = take (Suc i) ?m1"
      by (simp add: nth_append)
    ultimately show ?thesis by simp
  next
    case False
    with that have i: "i = length ?h" by simp
    have "ui_turn_ok be a ps ?h1 c1 i"
      using call lc by (simp add: ui_turn_ok_def i p[symmetric] c1)
    moreover have "?m1 ! i = chat_line (ps ! (i mod 3)) (entry_content (?h1 ! i))"
      using lm by (simp add: i p[symmetric] nth_append)
    moreover have "(acc @ [y]) ! i = take (Suc i) ?m1"
      using la lm by (simp add: i y nth_append)
    ultimately show ?thesis by simp
  qed
  then show ?thesis
    using t0 lh lc lm la lt by (simp add: gen_inv_def s1 c1 eff_turn_def)
qed

lemma ui_turn_ok_request:
  assumes "ui_turn_ok be a ps h c i" and "i < length c"
  shows "c ! i = ui_request_at a ps h i"
proof -
  let ?p = "ps ! (i mod 3)"
  from assms(1) have "snd (call_llm be (take i c) (model ?p) (ui_prompt_messages a ?p (take i h))
         (config ?p) (source ?p) (ollama_url a) (ui_api_key a)) = take (Suc i) c"
    by (simp add: ui_turn_ok_def)
  then have "take (Suc i) c = take i c @ [ui_request_at a ps h i]"
    by (simp add: call_llm_calls ui_request_at_def)
  moreover have "take (Suc i) c = take i c @ [c ! i]"
    using assms(2) by (rule take_Suc_conv_app_nth)
  ultimately show ?thesis by simp
qed

lemma iterate_generator_trace:
  assumes run: "iterate_generator be a ps gen_start [] = (ys, r, s', c')"
    and len: "3 \<le> length ps"
  shows "(r = None \<longrightarrow> int (length (conversation_history_internal s')) = max 0 (max_turns a)
                     \<and> length c' = length (conversation_history_internal s'))
       \<and> length ys = length (conversation_history_internal s')
       \<and> length (messages s') = length (conversation_history_internal s')
       \<and> (\<forall>i<length (conversation_history_internal s').
            ui_turn_ok be a ps (conversation_history_internal s') c' i \<and>
            messages s' ! i = chat_line (ps ! (i mod 3))
                                (entry_content (conversation_history_internal s' ! i)) \<and>
            ys ! i = take (Suc i) (messages s'))
       \<and> (\<forall>i<length c'. i \<le> length (conversation_history_internal s') \<and>
            c' ! i = ui_request_at a ps (conversation_history_internal s') i)"
proof -
  have init: "gen_inv be a ps gen_start [] []"
    by (simp add: gen_inv_def gen_start_def eff_turn_def)
  have "\<exists>s0 c0. gen_inv be a ps s0 c0 ([] @ ys) \<and>
           gen_next be a ps s0 c0 = ((case r of None \<Rightarrow> Inr None | Some e \<Rightarrow> Inl e), s', c')"
    by (rule iterate_generator_invariant[where I = "gen_inv be a ps", OF run init])
       (rule gen_inv_step[OF len])
  then obtain s0 c0 where inv: "gen_inv be a ps s0 c0 ys"
    and fin: "gen_next be a ps s0 c0 = ((case r of None \<Rightarrow> Inr None | Some e \<Rightarrow> Inl e), s', c')"
    by auto
  let ?h = "conversation_history_internal s0"
  from inv have nd: "pc s0 \<noteq> Done" and t0: "0 \<le> eff_turn s0"
    and le: "eff_turn s0 \<le> max 0 (max_turns a)"
    and lh: "int (length ?h) = eff_turn s0"
    and lc: "length c0 = length ?h" and lm: "length (messages s0) = length ?h"
    and la: "length ys = length ?h"
    and ok: "\<forall>i<length ?h. ui_turn_ok be a ps ?h c0 i \<and>
        messages s0 ! i = chat_line (ps ! (i mod 3)) (entry_content (?h ! i)) \<and>
        ys ! i = take (Suc i) (messages s0)"
    by (auto simp: gen_inv_def)
  show ?thesis
  proof (cases r)
    case None
    with fin have "gen_next be a ps s0 c0 = (Inr None, s', c')" by simp
    from gen_next_stop_cases[OF this nd]
    have st: "\<not> eff_turn s0 < max_turns a" "c' = c0"
      "conversation_history_internal s' = ?h" "messages s' = messages s0" by simp_all
    have "\<forall>i<length c'. i \<le> length ?h \<and> c' ! i = ui_request_at a ps ?h i"
      using ok lc st(2) by (auto intro: ui_turn_ok_request)
    with None st le lh lc lm la ok show ?thesis by auto
  next
    case (Some e)
    with fin have "gen_next be a ps s0 c0 = (Inl e, s', c')" by simp
    from gen_next_raise_cases[OF this]
    have st: "conversation_history_internal s' = ?h" "messages s' = messages s0"
      and alt: "getitem ps (eff_turn s0 mod 3) = Inl e \<and> c' = c0 \<or>
          (\<exists>p. getitem ps (eff_turn s0 mod 3) = Inr p \<and>
             call_llm be c0 (model p) (ui_prompt_messages a p ?h)
               (config p) (source p) (ollama_url a) (ui_api_key a) = (Inl e, c'))"
      by blast+
    let ?p = "ps ! (length ?h mod 3)"
    have "nat (eff_turn s0) = length ?h" using lh by linarith
    then have gi: "getitem ps (eff_turn s0 mod 3) = Inr ?p"
      using getitem_mod3[OF len t0] by simp
    with alt have call: "call_llm be c0 (model ?p) (ui_prompt_messages a ?p ?h)
               (config ?p) (source ?p) (ollama_url a) (ui_api_key a) = (Inl e, c')"
      by auto
    have c': "c' = c0 @ [ui_request_at a ps ?h (length ?h)]"
      using call_llm_calls[of be c0 "model ?p" "ui_prompt_messages a ?p ?h" "config ?p" "source ?p"
            "ollama_url a" "ui_api_key a"] call
      by (simp add: ui_request_at_def)
    have ok': "\<forall>i<length ?h. ui_turn_ok be a ps ?h c' i"
      using ok lc by (simp add: ui_turn_ok_def c')
    have "c' ! i = ui_request_at a ps ?h i" if "i < length c'" for i
    proof (cases "i < length ?h")
      case True
      then have "c0 ! i = ui_request_at a ps ?h i" using ok lc by (auto intro: ui_turn_ok_request)
      with True lc show ?thesis by (simp add: c' nth_append)
    next
      case False
      with that lc have "i = length c0" by (simp add: c')
      then show ?thesis using lc by (simp add: c' nth_append)
    qed
    moreover have "i \<le> length ?h" if "i < length c'" for i
      using that lc by (simp add: c')
    ultimately show ?thesis using Some st lm la ok ok' by auto
  qed
qed

section \<open>Completed and interrupted runs\<close>

lemma call_ollama_raises:
  assumes "fst (call_ollama be c m msgs copt) = Inl e"
  shows "\<exists>req x. be client_main c req = Inl (NonException x)"
  using assms
  by (auto simp: call_ollama_def Let_def except_Exception_def first_choice_content_def getitem_def
           split: sum.splits raised.splits if_splits)

lemma call_llm_raises:
  assumes "fst (call_llm be c m msgs cfg src url key) = Inl e"
  shows "\<exists>cl req x. be cl c req = Inl (NonException x)"
  using assms
  by (auto simp: call_llm_def Let_def except_Exception_def first_choice_content_def getitem_def
           split: sum.splits raised.splits if_splits)

lemma conversation_loop_raises:
  assumes run: "conversation_loop be ps mt 0 [] [] = (Inl e, calls')" and len: "3 \<le> length ps"
  shows "\<exists>c req x. be client_main c req = Inl (NonException x)"
proof -
  have init: "loop_inv be ps mt 0 [] []" by (simp add: loop_inv_def)
  have "case (Inl e :: raised + entry list) of
           Inr tr \<Rightarrow> \<exists>t'. loop_inv be ps mt t' tr calls' \<and> \<not> t' < mt
         | Inl e \<Rightarrow> \<exists>t' h' c. loop_inv be ps mt t' h' c \<and> t' < mt \<and>
             (getitem ps (t' mod 3) = Inl e \<and> calls' = c \<or>
              (\<exists>p. getitem ps (t' mod 3) = Inr p \<and>
                 get_next_response be c (model p) (prompt p) (name p) h' (Some (config p))
                   = (Inl e, calls')))"
    by (rule conversation_loop_invariant[where I = "loop_inv be ps mt", OF run init])
       (rule loop_inv_step[OF len])
  then obtain t' h' c where inv: "loop_inv be ps mt t' h' c"
    and alt: "getitem ps (t' mod 3) = Inl e \<and> calls' = c \<or>
              (\<exists>p. getitem ps (t' mod 3) = Inr p \<and>
                 get_next_response be c (model p) (prompt p) (name p) h' (Some (config p))
                   = (Inl e, calls'))"
    by auto
  from inv have "0 \<le> t'" by (simp add: loop_inv_def)
  from getitem_mod3[OF len this] alt obtain p :: participant where
    "get_next_response be c (model p) (prompt p) (name p) h' (Some (config p)) = (Inl e, calls')"
    by auto
  then have "fst (call_ollama be c (model p) (build_messages (prompt p) (name p) h') (Some (config p))) = Inl e"
    by (simp add: get_next_response_def)
  then show ?thesis using call_ollama_raises by blast
qed

lemma iterate_generator_raises:
  assumes run: "iterate_generator be a ps gen_start [] = (ys, Some e, s', c')" and len: "3 \<le> length ps"
  shows "\<exists>cl c req x. be cl c req = Inl (NonException x)"
proof -
  have init: "gen_inv be a ps gen_start [] []"
    by (simp add: gen_inv_def gen_start_def eff_turn_def)
  have "\<exists>s0 c0. gen_inv be a ps s0 c0 ([] @ ys) \<and>
           gen_next be a ps s0 c0 = ((case Some e of None \<Rightarrow> Inr None | Some e \<Rightarrow> Inl e), s', c')"
    by (rule iterate_generator_invariant[where I = "gen_inv be a ps", OF run init])
       (rule gen_inv_step[OF len])
  then obtain s0 c0 where inv: "gen_inv be a ps s0 c0 ys"
    and fin: "gen_next be a ps s0 c0 = (Inl e, s', c')"
    by auto
  from inv have "0 \<le> eff_turn s0" by (simp add: gen_inv_def)
  from getitem_mod3[OF len this] gen_next_raise_cases[OF fin] obtain p :: ui_participant where
    "call_llm be c0 (model p) (ui_prompt_messages a p (conversation_history_internal s0))
               (config p) (source p) (ollama_url a) (ui_api_key a) = (Inl e, c')"
    by auto
  then have "fst (call_llm be c0 (model p) (ui_prompt_messages a p (conversation_history_internal s0))
               (config p) (source p) (ollama_url a) (ui_api_key a)) = Inl e" by simp
  then show ?thesis using call_llm_raises by blast
qed

lemma length_participants_ui: "length (participants_ui a) = 3"
  by (simp add: participants_ui_def)

section \<open>Turn rotation\<close>

text \<open>
  C1. The programs build a list of exactly three participants and every \<open>max_turns \<ge> 0\<close>
  is covered: for every list \<open>ps\<close> of three participants, a completed run has exactly
  \<open>max_turns\<close> entries and the speaker of entry \<open>i\<close> is \<open>participants[i mod N].name\<close>,
  \<open>N\<close> the length of the list; a run that no signal outside \<^verbatim>\<open>Exception\<close> interrupts does
  complete. This holds for the batch loop of \<^verbatim>\<open>main.py\<close>, for \<^verbatim>\<open>run_conversation\<close> itself and for
  the generator of \<^verbatim>\<open>app.py\<close> iterated to its end, which also yields once per turn.
\<close>

theorem three_way_rotation:
  assumes "0 \<le> mt" and "length ps = 3"
  shows "(fst (conversation_loop be ps mt 0 [] []) = Inr tr \<longrightarrow>
            int (length tr) = mt \<and>
            (\<forall>i<length tr. speaker (tr ! i) = name (ps ! (i mod length ps))))
       \<and> ((\<forall>c req x. be client_main c req \<noteq> Inl (NonException x)) \<longrightarrow>
            (\<exists>tr. fst (conversation_loop be ps mt 0 [] []) = Inr tr))
       \<and> (fst (run_conversation be) = Inr tr' \<longrightarrow>
            int (length tr') = MAX_TURNS \<and>
            (\<forall>i<length tr'. speaker (tr' ! i) =
               name (participants_main ! (i mod length participants_main))))
       \<and> (max_turns a = mt \<longrightarrow>
            iterate_generator be a (participants_ui a) gen_start [] = (ys, None, s, ucalls) \<longrightarrow>
            int (length (conversation_history_internal s)) = mt \<and>
            length ys = length (conversation_history_internal s) \<and>
            (\<forall>i<length (conversation_history_internal s).
               entry_name (conversation_history_internal s ! i) =
                 name (participants_ui a ! (i mod length (participants_ui a)))))"
proof (intro conjI impI)
  from assms(2) have len: "3 \<le> length ps" by simp
  assume "fst (conversation_loop be ps mt 0 [] []) = Inr tr"
  then have run: "conversation_loop be ps mt 0 [] [] = (Inr tr, snd (conversation_loop be ps mt 0 [] []))"
    by (simp add: prod_eq_iff)
  from conversation_loop_trace[OF run len] assms(1)
  have "int (length tr) = mt" and ok: "\<forall>i<length tr. turn_ok be ps tr (snd (conversation_loop be ps mt 0 [] [])) i"
    by auto
  then show "int (length tr) = mt" by simp
  from ok show "\<forall>i<length tr. speaker (tr ! i) = name (ps ! (i mod length ps))"
    by (simp add: turn_ok_def assms(2))
next
  from assms(2) have len: "3 \<le> length ps" by simp
  assume quiet: "\<forall>c req x. be client_main c req \<noteq> Inl (NonException x)"
  obtain res calls' where run: "conversation_loop be ps mt 0 [] [] = (res, calls')"
    by (cases "conversation_loop be ps mt 0 [] []")
  show "\<exists>tr. fst (conversation_loop be ps mt 0 [] []) = Inr tr"
  proof (cases res)
    case (Inl e)
    with run have "conversation_loop be ps mt 0 [] [] = (Inl e, calls')" by simp
    from conversation_loop_raises[OF this len] quiet show ?thesis by blast
  next
    case (Inr tr)
    with run show ?thesis by simp
  qed
next
  have len: "3 \<le> length participants_main" by (simp add: participants_main_def)
  have l3: "length participants_main = 3" by (simp add: participants_main_def)
  assume "fst (run_conversation be) = Inr tr'"
  then have run: "conversation_loop be participants_main MAX_TURNS 0 [] [] =
      (Inr tr', snd (conversation_loop be participants_main MAX_TURNS 0 [] []))"
    by (simp add: prod_eq_iff run_conversation_def)
  from conversation_loop_trace[OF run len]
  have "int (length tr') = max 0 MAX_TURNS"
    and ok: "\<forall>i<length tr'. turn_ok be participants_main tr'
                (snd (conversation_loop be participants_main MAX_TURNS 0 [] [])) i"
    by auto
  then show "int (length tr') = MAX_TURNS" by (simp add: MAX_TURNS_def)
  from ok show "\<forall>i<length tr'. speaker (tr' ! i) =
               name (participants_main ! (i mod length participants_main))"
    by (simp add: turn_ok_def l3)
next
  assume mt: "max_turns a = mt"
    and run: "iterate_generator be a (participants_ui a) gen_start [] = (ys, None, s, ucalls)"
  have len: "3 \<le> length (participants_ui a)" by (simp add: length_participants_ui)
  note tr = iterate_generator_trace[OF run len]
  from tr mt assms(1) show "int (length (conversation_history_internal s)) = mt" by simp
  from tr show "length ys = length (conversation_history_internal s)" by simp
  from tr show "\<forall>i<length (conversation_history_internal s).
               entry_name (conversation_history_internal s ! i) =
                 name (participants_ui a ! (i mod length (participants_ui a)))"
    by (simp add: ui_turn_ok_def length_participants_ui)
qed

theorem three_way_rotation_witness:
  "(0::int) \<le> 4 \<and> length participants_main = 3
   \<and> fst (conversation_loop echo_backend participants_main 4 0 [] []) =
       Inr [\<lparr>speaker = ''Professor Maya'', message = TEACHER_MODEL\<rparr>,
            \<lparr>speaker = ''Curious George'', message = STUDENT1_MODEL\<rparr>,
            \<lparr>speaker = ''Handson Alex'', message = STUDENT2_MODEL\<rparr>,
            \<lparr>speaker = ''Professor Maya'', message = TEACHER_MODEL\<rparr>]
   \<and> name (participants_main ! (3 mod length participants_main)) = ''Professor Maya''
   \<and> max_turns (ui_defaults\<lparr>max_turns := 4\<rparr>) = 4
   \<and> fst (snd (iterate_generator echo_backend (ui_defaults\<lparr>max_turns := 4\<rparr>)
         (participants_ui (ui_defaults\<lparr>max_turns := 4\<rparr>)) gen_start [])) = None
   \<and> int (length (conversation_history_internal (fst (snd (snd
         (iterate_generator echo_backend (ui_defaults\<lparr>max_turns := 4\<rparr>)
           (participants_ui (ui_defaults\<lparr>max_turns := 4\<rparr>)) gen_start [])))))) = 4"
proof -
  let ?a = "ui_defaults\<lparr>max_turns := 4\<rparr>"
  let ?R = "iterate_generator echo_backend ?a (participants_ui ?a) gen_start []"
  let ?tr = "[\<lparr>speaker = ''Professor Maya'', message = TEACHER_MODEL\<rparr>,
            \<lparr>speaker = ''Curious George'', message = STUDENT1_MODEL\<rparr>,
            \<lparr>speaker = ''Handson Alex'', message = STUDENT2_MODEL\<rparr>,
            \<lparr>speaker = ''Professor Maya'', message = TEACHER_MODEL\<rparr>]"
  have h1: "(0::int) \<le> 4" by simp
  have h2: "length participants_main = 3" by (simp add: participants_main_def)
  have e1: "fst (conversation_loop echo_backend participants_main 4 0 [] []) = Inr ?tr"
    by (simp add: participants_main_def echo_backend_def getitem_def get_next_response_def
        call_ollama_def Let_def except_Exception_def first_choice_content_def
        completion_request_def conversation_loop.simps)
  have e1': "name (participants_main ! (3 mod length participants_main)) = ''Professor Maya''"
    by (simp add: participants_main_def)
  have e2: "max_turns ?a = 4" by simp
  have e3: "fst (snd ?R) = None"
    by (simp add: participants_ui_def ui_defaults_def echo_backend_def getitem_def gen_next_def
        gen_start_def call_llm_def Let_def except_Exception_def first_choice_content_def
        completion_request_def iterate_generator.simps)
  have e3': "?R = (fst ?R, None, fst (snd (snd ?R)), snd (snd (snd ?R)))"
    using e3 by (metis prod.collapse)
  note th = three_way_rotation [OF h1 h2, of echo_backend ?tr "[]" ?a "fst ?R" "fst (snd (snd ?R))"
      "snd (snd (snd ?R))", THEN conjunct2, THEN conjunct2, THEN conjunct2]
  from th e2 e3' have "int (length (conversation_history_internal (fst (snd (snd ?R))))) = 4"
    by blast
  with h1 h2 e1 e1' e2 e3 show ?thesis by (intro conjI)
qed

section \<open>Error containment\<close>

text \<open>
  C3. If the endpoint raises an \<^verbatim>\<open>Exception\<close> on the call of turn \<open>k\<close> (the call made
  after \<open>k\<close> earlier calls) and the run is not interrupted, the batch loop runs to its
  end: the history has exactly \<open>max_turns\<close> entries, the entry of turn \<open>k\<close> is the
  sentinel text, which contains \<^verbatim>\<open>[Error calling \<close>, and the rotation of speakers is
  unchanged.
\<close>

theorem failed_call_is_contained:
  assumes "3 \<le> length ps" and "k < nat mt"
    and "\<forall>c r x. be client_main c r \<noteq> Inl (NonException x)"
    and "\<forall>c r. length c = k \<longrightarrow> be client_main c r = Inl (Exception cause)"
  shows "\<exists>tr calls. conversation_loop be ps mt 0 [] [] = (Inr tr, calls)
           \<and> int (length tr) = mt
           \<and> message (tr ! k) = ''[Error calling '' @ model (ps ! (k mod 3)) @ '': '' @ cause @ '']''
           \<and> sublist ''[Error calling '' (message (tr ! k))
           \<and> (\<forall>i<length tr. speaker (tr ! i) = name (ps ! (i mod 3)))"
proof -
  obtain res calls where run: "conversation_loop be ps mt 0 [] [] = (res, calls)"
    using prod.exhaust by blast
  have "\<exists>tr. res = Inr tr"
  proof (cases res)
    case (Inl e)
    with run conversation_loop_raises[OF _ assms(1)] assms(3) show ?thesis by blast
  qed simp
  then obtain tr where res: "res = Inr tr" by blast
  from conversation_loop_trace[OF run assms(1)] res obtain
    len: "int (length tr) = max 0 mt" and lc: "length calls = length tr"
    and ok: "\<forall>i<length tr. turn_ok be ps tr calls i"
    by auto
  from assms(2) len have mt: "int (length tr) = mt" and k: "k < length tr" by auto
  let ?p = "ps ! (k mod 3)"
  from ok k have "get_next_response be (take k calls) (model ?p) (prompt ?p) (name ?p) (take k tr)
        (Some (config ?p)) = (Inr (message (tr ! k)), take (Suc k) calls)"
    by (simp add: turn_ok_def)
  moreover have "length (take k calls) = k" using k lc by simp
  ultimately have msg: "message (tr ! k) = ''[Error calling '' @ model ?p @ '': '' @ cause @ '']''"
    using assms(4)
    by (simp add: get_next_response_def call_ollama_def Let_def except_Exception_def)
  have "sublist ''[Error calling '' (message (tr ! k))"
    unfolding msg by (rule sublist_append_rightI)
  moreover have "\<forall>i<length tr. speaker (tr ! i) = name (ps ! (i mod 3))"
    using ok by (simp add: turn_ok_def)
  ultimately show ?thesis using run res mt msg by blast
qed

theorem failed_call_is_contained_witness:
  "3 \<le> length participants_main \<and> 1 < nat MAX_TURNS
   \<and> (\<forall>c r x. flaky_backend client_main c r \<noteq> Inl (NonException x))
   \<and> (\<exists>tr calls. run_conversation flaky_backend = (Inr tr, calls)
           \<and> int (length tr) = 20
           \<and> message (tr ! 1) = ''[Error calling llama3.2:1b: boom]''
           \<and> speaker (tr ! 1) = ''Curious George''
           \<and> speaker (tr ! 4) = ''Curious George'')"
proof -
  have h1: "3 \<le> length participants_main" by (simp add: participants_main_def)
  have h2: "1 < nat MAX_TURNS" by (simp add: MAX_TURNS_def)
  have h3: "\<forall>c r x. flaky_backend client_main c r \<noteq> Inl (NonException x)"
    by (simp add: flaky_backend_def)
  have h4: "\<forall>c r. length c = 1 \<longrightarrow> flaky_backend client_main c r = Inl (Exception ''boom'')"
    by (simp add: flaky_backend_def)
  from failed_call_is_contained
    [of participants_main 1 MAX_TURNS flaky_backend "''boom''", OF h1 h2 h3 h4]
  obtain tr calls where
    r: "conversation_loop flaky_backend participants_main MAX_TURNS 0 [] [] = (Inr tr, calls)"
    and l: "int (length tr) = MAX_TURNS"
    and m: "message (tr ! 1) = ''[Error calling '' @ model (participants_main ! (1 mod 3)) @ '': '' @ ''boom'' @ '']''"
    and s: "\<forall>i<length tr. speaker (tr ! i) = name (participants_main ! (i mod 3))"
    by blast
  from l have l20: "int (length tr) = 20" by (simp add: MAX_TURNS_def)
  from m have m1: "message (tr ! 1) = ''[Error calling llama3.2:1b: boom]''"
    by (simp add: participants_main_def STUDENT1_MODEL_def)
  from s l20 have s1: "speaker (tr ! 1) = ''Curious George''" and s4: "speaker (tr ! 4) = ''Curious George''"
    by (simp_all add: participants_main_def)
  from r l20 m1 s1 s4 have "\<exists>tr calls. run_conversation flaky_backend = (Inr tr, calls)
           \<and> int (length tr) = 20
           \<and> message (tr ! 1) = ''[Error calling llama3.2:1b: boom]''
           \<and> speaker (tr ! 1) = ''Curious George''
           \<and> speaker (tr ! 4) = ''Curious George''"
    unfolding run_conversation_def by blast
  with h1 h2 h3 show ?thesis by (intro conjI)
qed

section \<open>The payload of a provider call\<close>

lemma batch_two_turns:
  "fst (conversation_loop echo_backend participants_main 2 0 [] []) =
     Inr [\<lparr>speaker = ''Professor Maya'', message = TEACHER_MODEL\<rparr>,
          \<lparr>speaker = ''Curious George'', message = STUDENT1_MODEL\<rparr>]"
  by (simp add: participants_main_def echo_backend_def getitem_def get_next_response_def
        call_ollama_def Let_def except_Exception_def first_choice_content_def
        completion_request_def conversation_loop.simps)

lemma batch_two_turns_calls:
  "length (snd (conversation_loop echo_backend participants_main 2 0 [] [])) = 2"
  by (simp add: participants_main_def echo_backend_def getitem_def get_next_response_def
        call_ollama_def Let_def except_Exception_def first_choice_content_def
        completion_request_def conversation_loop.simps)

lemma generator_two_turns:
  "conversation_history_internal (fst (snd (snd
     (iterate_generator echo_backend (ui_defaults\<lparr>max_turns := 2\<rparr>)
        (participants_ui (ui_defaults\<lparr>max_turns := 2\<rparr>)) gen_start [])))) =
     [\<lparr>entry_name = ''Professor Maya'', entry_content = ''llama3.2:latest''\<rparr>,
      \<lparr>entry_name = ''Curious George'', entry_content = ''llama3.2:1b''\<rparr>]"
  by (simp add: participants_ui_def ui_defaults_def echo_backend_def getitem_def gen_next_def
        gen_start_def call_llm_def Let_def except_Exception_def first_choice_content_def
        completion_request_def iterate_generator.simps)

lemma generator_two_turns_calls:
  "length (snd (snd (snd
     (iterate_generator echo_backend (ui_defaults\<lparr>max_turns := 2\<rparr>)
        (participants_ui (ui_defaults\<lparr>max_turns := 2\<rparr>)) gen_start [])))) = 2"
  by (simp add: participants_ui_def ui_defaults_def echo_backend_def getitem_def gen_next_def
        gen_start_def call_llm_def Let_def except_Exception_def first_choice_content_def
        completion_request_def iterate_generator.simps)

text \<open>
  C7. Every request that a run issues carries exactly two messages: a system message
  whose content is the prompt of the speaking participant, unchanged, and a user message
  whose content is the text synthesized from the history of the earlier turns. This holds
  for the batch loop of \<^verbatim>\<open>main.py\<close> and for the generator of \<^verbatim>\<open>app.py\<close>, for completed
  and for interrupted runs; the history is never passed as further messages.
\<close>

theorem two_messages_per_call:
  assumes "3 \<le> length ps"
  shows "(conversation_loop be ps mt 0 [] [] = (res, calls) \<longrightarrow>
           (\<forall>i<length calls. \<exists>h. length h = i \<and> (\<forall>tr. res = Inr tr \<longrightarrow> h = take i tr) \<and>
              req_messages (calls ! i) =
                [\<lparr>role = ''system'', content = prompt (ps ! (i mod 3))\<rparr>,
                 \<lparr>role = ''user'', content = user_prompt (name (ps ! (i mod 3))) h\<rparr>]))
       \<and> (iterate_generator be a (participants_ui a) gen_start [] = (ys, r, s, ucalls) \<longrightarrow>
           (\<forall>i<length ucalls.
              req_messages (ucalls ! i) =
                [\<lparr>role = ''system'', content = prompt (participants_ui a ! (i mod 3))\<rparr>,
                 \<lparr>role = ''user'',
                  content = ui_user_prompt (topic a) (name (participants_ui a ! (i mod 3)))
                              (take i (conversation_history_internal s))\<rparr>]))"
proof (intro conjI impI allI)
  fix i
  assume run: "conversation_loop be ps mt 0 [] [] = (res, calls)" and i: "i < length calls"
  from conversation_loop_trace[OF run assms] obtain h where
    fin: "\<forall>tr. res = Inr tr \<longrightarrow> h = tr \<and> int (length tr) = max 0 mt \<and> length calls = length tr"
    and req: "\<forall>i<length calls. i \<le> length h \<and> calls ! i = request_at ps h i"
    by blast
  from req i have le: "i \<le> length h" and c: "calls ! i = request_at ps h i" by simp_all
  have "length (take i h) = i" using le by simp
  moreover have "\<forall>tr. res = Inr tr \<longrightarrow> take i h = take i tr" using fin by auto
  moreover have "req_messages (calls ! i) =
                [\<lparr>role = ''system'', content = prompt (ps ! (i mod 3))\<rparr>,
                 \<lparr>role = ''user'', content = user_prompt (name (ps ! (i mod 3))) (take i h)\<rparr>]"
    by (simp add: c request_at_def completion_request_def build_messages_def)
  ultimately show "\<exists>h. length h = i \<and> (\<forall>tr. res = Inr tr \<longrightarrow> h = take i tr) \<and>
              req_messages (calls ! i) =
                [\<lparr>role = ''system'', content = prompt (ps ! (i mod 3))\<rparr>,
                 \<lparr>role = ''user'', content = user_prompt (name (ps ! (i mod 3))) h\<rparr>]"
    by blast
next
  fix i
  assume run: "iterate_generator be a (participants_ui a) gen_start [] = (ys, r, s, ucalls)"
    and i: "i < length ucalls"
  have len: "3 \<le> length (participants_ui a)" by (simp add: length_participants_ui)
  from iterate_generator_trace[OF run len] i
  have "ucalls ! i = ui_request_at a (participants_ui a) (conversation_history_internal s) i"
    by simp
  then show "req_messages (ucalls ! i) =
                [\<lparr>role = ''system'', content = prompt (participants_ui a ! (i mod 3))\<rparr>,
                 \<lparr>role = ''user'',
                  content = ui_user_prompt (topic a) (name (participants_ui a ! (i mod 3)))
                              (take i (conversation_history_internal s))\<rparr>]"
    by (simp add: ui_request_at_def completion_request_def ui_prompt_messages_def)
qed

theorem two_messages_per_call_witness:
  "3 \<le> length participants_main
   \<and> req_messages (snd (conversation_loop echo_backend participants_main 2 0 [] []) ! 1) =
        [\<lparr>role = ''system'', content = STUDENT1_PROMPT\<rparr>,
         \<lparr>role = ''user'', content = user_prompt ''Curious George''
             [\<lparr>speaker = ''Professor Maya'', message = TEACHER_MODEL\<rparr>]\<rparr>]
   \<and> req_messages (snd (snd (snd (iterate_generator echo_backend (ui_defaults\<lparr>max_turns := 2\<rparr>)
          (participants_ui (ui_defaults\<lparr>max_turns := 2\<rparr>)) gen_start []))) ! 1) =
        [\<lparr>role = ''system'', content = STUDENT1_PROMPT\<rparr>,
         \<lparr>role = ''user'', content = ui_user_prompt INITIAL_TOPIC ''Curious George''
             [\<lparr>entry_name = ''Professor Maya'', entry_content = ''llama3.2:latest''\<rparr>]\<rparr>]"
proof -
  let ?a = "ui_defaults\<lparr>max_turns := 2\<rparr>"
  let ?tr = "[\<lparr>speaker = ''Professor Maya'', message = TEACHER_MODEL\<rparr>,
              \<lparr>speaker = ''Curious George'', message = STUDENT1_MODEL\<rparr>]"
  obtain res calls where L: "conversation_loop echo_backend participants_main 2 0 [] [] = (res, calls)"
    using prod.exhaust by blast
  obtain ys r s ucalls where
    R: "iterate_generator echo_backend ?a (participants_ui ?a) gen_start [] = (ys, r, s, ucalls)"
    using prod.exhaust by metis
  have h: "3 \<le> length participants_main" by (simp add: participants_main_def)
  have e1: "res = Inr ?tr" and l1: "1 < length calls"
    using batch_two_turns batch_two_turns_calls by (simp_all add: L)
  have e2: "conversation_history_internal s =
              [\<lparr>entry_name = ''Professor Maya'', entry_content = ''llama3.2:latest''\<rparr>,
               \<lparr>entry_name = ''Curious George'', entry_content = ''llama3.2:1b''\<rparr>]"
    and l2: "1 < length ucalls"
    using generator_two_turns generator_two_turns_calls by (simp_all add: R)
  note th = two_messages_per_call [OF h, of echo_backend 2 res calls ?a ys r s ucalls]
  from th L have "\<forall>i<length calls. \<exists>h. length h = i \<and> (\<forall>tr. res = Inr tr \<longrightarrow> h = take i tr) \<and>
              req_messages (calls ! i) =
                [\<lparr>role = ''system'', content = prompt (participants_main ! (i mod 3))\<rparr>,
                 \<lparr>role = ''user'', content = user_prompt (name (participants_main ! (i mod 3))) h\<rparr>]"
    by blast
  from this[rule_format, OF l1] e1 obtain hh where
    hh: "hh = take 1 ?tr"
    and m: "req_messages (calls ! 1) =
             [\<lparr>role = ''system'', content = prompt (participants_main ! (1 mod 3))\<rparr>,
              \<lparr>role = ''user'', content = user_prompt (name (participants_main ! (1 mod 3))) hh\<rparr>]"
    by blast
  from m have a: "req_messages (calls ! 1) =
        [\<lparr>role = ''system'', content = STUDENT1_PROMPT\<rparr>,
         \<lparr>role = ''user'', content = user_prompt ''Curious George''
             [\<lparr>speaker = ''Professor Maya'', message = TEACHER_MODEL\<rparr>]\<rparr>]"
    unfolding hh by (simp add: participants_main_def)
  from th R have "\<forall>i<length ucalls. req_messages (ucalls ! i) =
        [\<lparr>role = ''system'', content = prompt (participants_ui ?a ! (i mod 3))\<rparr>,
         \<lparr>role = ''user'', content = ui_user_prompt (topic ?a) (name (participants_ui ?a ! (i mod 3)))
             (take i (conversation_history_internal s))\<rparr>]"
    by blast
  from this[rule_format, OF l2] have b: "req_messages (ucalls ! 1) =
        [\<lparr>role = ''system'', content = STUDENT1_PROMPT\<rparr>,
         \<lparr>role = ''user'', content = ui_user_prompt INITIAL_TOPIC ''Curious George''
             [\<lparr>entry_name = ''Professor Maya'', entry_content = ''llama3.2:latest''\<rparr>]\<rparr>]"
    unfolding e2 by (simp add: participants_ui_def ui_defaults_def)
  from h a b show ?thesis by (simp add: L R)
qed

section \<open>Batch mode and incremental mode\<close>

lemma format_conversation_pairs:
  assumes "pairs_ui hu = pairs_main hm"
  shows "format_conversation_for_prompt hu = format_conversation hm"
proof -
  have "map (\<lambda>(a, b). a @ '': '' @ b) (pairs_ui hu) = map (\<lambda>(a, b). a @ '': '' @ b) (pairs_main hm)"
    using assms by simp
  then have m: "map (\<lambda>e. entry_name e @ '': '' @ entry_content e) hu
              = map (\<lambda>e. speaker e @ '': '' @ message e) hm"
    by (simp add: pairs_ui_def pairs_main_def comp_def)
  have "length (pairs_ui hu) = length (pairs_main hm)" using assms by simp
  then have "hu = [] \<longleftrightarrow> hm = []" by (auto simp: pairs_ui_def pairs_main_def)
  with m show ?thesis
    by (simp add: format_conversation_for_prompt_def format_conversation_def)
qed

lemma user_prompt_pairs:
  assumes "pairs_ui hu = pairs_main hm"
  shows "ui_user_prompt INITIAL_TOPIC nm hu = user_prompt nm hm"
proof -
  have "length (pairs_ui hu) = length (pairs_main hm)" using assms by simp
  then have "hu = [] \<longleftrightarrow> hm = []" by (auto simp: pairs_ui_def pairs_main_def)
  then show ?thesis
    using format_conversation_pairs[OF assms]
    by (simp add: ui_user_prompt_def user_prompt_def)
qed

lemma call_agree:
  assumes ans: "answers be"
    and cl: "be (llm_client (source q) url key) = be client_main"
    and sp: "same_participant p q"
    and pr: "pairs_ui hu = pairs_main hm"
    and tp: "topic a = INITIAL_TOPIC"
  shows "call_llm be c (model q) (ui_prompt_messages a q hu) (config q) (source q) url key
       = get_next_response be c (model p) (prompt p) (name p) hm (Some (config p))"
proof -
  have msgs: "ui_prompt_messages a q hu = build_messages (prompt p) (name p) hm"
    using sp tp user_prompt_pairs[OF pr]
    by (simp add: ui_prompt_messages_def build_messages_def same_participant_def)
  have req: "completion_request (model q) (build_messages (prompt p) (name p) hm) (config q)
           = completion_request (model p) (build_messages (prompt p) (name p) hm) (config p)"
    using sp by (simp add: completion_request_def same_participant_def)
  let ?req = "completion_request (model p) (build_messages (prompt p) (name p) hm) (config p)"
  from ans obtain resp where r: "be client_main c ?req = Inr resp" and ne: "choices resp \<noteq> []"
    unfolding answers_def by blast
  have fc: "first_choice_content resp = Inr (choices resp ! 0)"
    using ne by (simp add: first_choice_content_def getitem_def)
  have l: "call_llm be c (model q) (ui_prompt_messages a q hu) (config q) (source q) url key
         = (Inr (choices resp ! 0), c @ [?req])"
    using cl r fc unfolding msgs
    by (simp add: call_llm_def Let_def req except_Exception_def llm_client_def)
  have m: "get_next_response be c (model p) (prompt p) (name p) hm (Some (config p))
         = (Inr (choices resp ! 0), c @ [?req])"
    using r fc by (simp add: get_next_response_def call_ollama_def Let_def except_Exception_def)
  from l m show ?thesis by simp
qed


lemma defaults_same_participants:
  "list_all2 same_participant participants_main (participants_ui (ui_defaults\<lparr>max_turns := n\<rparr>))"
  by (simp add: participants_main_def participants_ui_def ui_defaults_def same_participant_def
        dict_get_def TEACHER_MODEL_def STUDENT1_MODEL_def STUDENT2_MODEL_def
        TEACHER_CONFIG_def STUDENT1_CONFIG_def STUDENT2_CONFIG_def)

lemma defaults_same_provider: "same_provider be (ui_defaults\<lparr>max_turns := n\<rparr>)"
  by (simp add: same_provider_def participants_ui_def ui_defaults_def llm_client_def client_main_def)

lemma answers_echo: "answers echo_backend"
  by (simp add: answers_def echo_backend_def)

text \<open>
  C4 (as amended). Given the same participants, topic and \<open>max_turns\<close>, and an endpoint
  that answers every call (no call raises) and answers alike through either client, the
  batch loop and the generator iterated to its end both complete, issue the same requests,
  and the (speaker, content) pairs of the batch history equal those of the internal history
  of the generator.
\<close>

theorem batch_and_stepwise_agree:
  assumes ps: "list_all2 same_participant ps (participants_ui a)"
    and tp: "topic a = INITIAL_TOPIC"
    and mt: "max_turns a = mt"
    and prov: "same_provider be a"
    and ans: "answers be"
  shows "\<exists>tr calls ys s.
           conversation_loop be ps mt 0 [] [] = (Inr tr, calls)
         \<and> iterate_generator be a (participants_ui a) gen_start [] = (ys, None, s, calls)
         \<and> pairs_ui (conversation_history_internal s) = pairs_main tr"
proof -
  let ?qs = "participants_ui a"
  have lq: "length ?qs = 3" by (rule length_participants_ui)
  from ps have lp: "length ps = 3" using lq by (simp add: list_all2_lengthD)
  have len: "3 \<le> length ps" "3 \<le> length ?qs" using lp lq by simp_all
  have no_raise: "\<not> (\<exists>cl c req x. be cl c req = Inl (NonException x))"
    using ans unfolding answers_def by (metis Inl_Inr_False)
  obtain res calls where run: "conversation_loop be ps mt 0 [] [] = (res, calls)"
    using prod.exhaust by blast
  have "\<exists>tr. res = Inr tr"
  proof (cases res)
    case (Inl e)
    with run conversation_loop_raises[OF _ len(1)] no_raise show ?thesis by blast
  qed simp
  then obtain tr where res: "res = Inr tr" by blast
  obtain ys r s ucalls where gen: "iterate_generator be a ?qs gen_start [] = (ys, r, s, ucalls)"
    using prod.exhaust by metis
  have r: "r = None"
  proof (cases r)
    case (Some e)
    with gen iterate_generator_raises[OF _ len(2)] no_raise show ?thesis by blast
  qed simp
  let ?h = "conversation_history_internal s"
  from conversation_loop_trace[OF run len(1)] res have
    ltr: "int (length tr) = max 0 mt" and lc: "length calls = length tr"
    and ok: "\<forall>i<length tr. turn_ok be ps tr calls i"
    by auto
  from iterate_generator_trace[OF gen len(2)] r mt have
    lh: "int (length ?h) = max 0 mt" and luc: "length ucalls = length ?h"
    and uok: "\<forall>i<length ?h. ui_turn_ok be a ?qs ?h ucalls i"
    by auto
  from ltr lh have same_len: "length ?h = length tr" by simp
  have step: "take n (pairs_ui ?h) = take n (pairs_main tr) \<and> take n ucalls = take n calls"
    if "n \<le> length tr" for n
    using that
  proof (induction n)
    case 0
    show ?case by simp
  next
    case (Suc n)
    then have n: "n < length tr" and
      ih: "take n (pairs_ui ?h) = take n (pairs_main tr)" "take n ucalls = take n calls"
      by simp_all
    let ?p = "ps ! (n mod 3)" and ?q = "?qs ! (n mod 3)"
    have i3: "n mod 3 < length ps" "n mod 3 < length ?qs" using lp lq by simp_all
    have sp: "same_participant ?p ?q" using ps i3 by (simp add: list_all2_nthD)
    have "?q \<in> set ?qs" using i3(2) by (rule nth_mem)
    then have cl: "be (llm_client (source ?q) (ollama_url a) (ui_api_key a)) = be client_main"
      using prov by (simp add: same_provider_def list_all_iff)
    have pr: "pairs_ui (take n ?h) = pairs_main (take n tr)"
      using ih(1) by (simp add: pairs_ui_def pairs_main_def take_map)
    from ok n have m1: "speaker (tr ! n) = name ?p"
      and m2: "get_next_response be (take n calls) (model ?p) (prompt ?p) (name ?p) (take n tr)
                 (Some (config ?p)) = (Inr (message (tr ! n)), take (Suc n) calls)"
      by (simp_all add: turn_ok_def)
    from uok n same_len have u1: "entry_name (?h ! n) = name ?q"
      and u2: "call_llm be (take n ucalls) (model ?q) (ui_prompt_messages a ?q (take n ?h))
                 (config ?q) (source ?q) (ollama_url a) (ui_api_key a)
               = (Inr (entry_content (?h ! n)), take (Suc n) ucalls)"
      by (simp_all add: ui_turn_ok_def)
    from call_agree[OF ans cl sp pr tp, of "take n calls"] m2 u2 ih(2)
    have eq: "entry_content (?h ! n) = message (tr ! n)" "take (Suc n) ucalls = take (Suc n) calls"
      by simp_all
    have nm: "entry_name (?h ! n) = speaker (tr ! n)"
      using m1 u1 sp by (simp add: same_participant_def)
    have "take (Suc n) (pairs_ui ?h) = take n (pairs_ui ?h) @ [(entry_name (?h ! n), entry_content (?h ! n))]"
      using n same_len by (simp add: pairs_ui_def take_Suc_conv_app_nth)
    moreover have "take (Suc n) (pairs_main tr) = take n (pairs_main tr) @ [(speaker (tr ! n), message (tr ! n))]"
      using n by (simp add: pairs_main_def take_Suc_conv_app_nth)
    ultimately show ?case using ih(1) eq nm by simp
  qed
  from step[of "length tr"] same_len lc luc
  have "pairs_ui ?h = pairs_main tr" and "ucalls = calls"
    by (simp_all add: pairs_ui_def pairs_main_def)
  with run res gen r show ?thesis by blast
qed


theorem batch_and_stepwise_agree_witness:
  "list_all2 same_participant participants_main (participants_ui (ui_defaults\<lparr>max_turns := MAX_TURNS\<rparr>))
   \<and> topic (ui_defaults\<lparr>max_turns := MAX_TURNS\<rparr>) = INITIAL_TOPIC
   \<and> max_turns (ui_defaults\<lparr>max_turns := MAX_TURNS\<rparr>) = MAX_TURNS
   \<and> same_provider echo_backend (ui_defaults\<lparr>max_turns := MAX_TURNS\<rparr>)
   \<and> answers echo_backend
   \<and> (\<exists>tr calls ys s.
          run_conversation echo_backend = (Inr tr, calls)
        \<and> iterate_generator echo_backend (ui_defaults\<lparr>max_turns := MAX_TURNS\<rparr>)
            (participants_ui (ui_defaults\<lparr>max_turns := MAX_TURNS\<rparr>)) gen_start []
            = (ys, None, s, calls)
        \<and> pairs_ui (conversation_history_internal s) = pairs_main tr)"
proof -
  let ?a = "ui_defaults\<lparr>max_turns := MAX_TURNS\<rparr>"
  have h1: "list_all2 same_participant participants_main (participants_ui ?a)"
    by (rule defaults_same_participants)
  have h2: "topic ?a = INITIAL_TOPIC" by (simp add: ui_defaults_def)
  have h3: "max_turns ?a = MAX_TURNS" by simp
  have h4: "same_provider echo_backend ?a" by (rule defaults_same_provider)
  have h5: "answers echo_backend" by (rule answers_echo)
  from batch_and_stepwise_agree [OF h1 h2 h3 h4 h5]
  have "\<exists>tr calls ys s.
          run_conversation echo_backend = (Inr tr, calls)
        \<and> iterate_generator echo_backend ?a (participants_ui ?a) gen_start [] = (ys, None, s, calls)
        \<and> pairs_ui (conversation_history_internal s) = pairs_main tr"
    unfolding run_conversation_def .
  with h1 h2 h3 h4 h5 show ?thesis by (intro conjI)
qed

text \<open>
  C4 as stated fails when a call raises an \<^verbatim>\<open>Exception\<close>: with the same participants,
  topic and responses, the batch loop records \<^verbatim>\<open>[Error calling <model>: <cause>]\<close> and
  the generator records \<^verbatim>\<open>[Error calling <model> via <source>: <cause>]\<close>.
\<close>

theorem sentinel_texts_differ:
  "list_all2 same_participant participants_main (participants_ui (ui_defaults\<lparr>max_turns := 1\<rparr>))
   \<and> topic (ui_defaults\<lparr>max_turns := 1\<rparr>) = INITIAL_TOPIC
   \<and> same_provider failing_backend (ui_defaults\<lparr>max_turns := 1\<rparr>)
   \<and> fst (conversation_loop failing_backend participants_main 1 0 [] []) =
        Inr [\<lparr>speaker = ''Professor Maya'', message = ''[Error calling llama3.2:latest: boom]''\<rparr>]
   \<and> conversation_history_internal (fst (snd (snd
        (iterate_generator failing_backend (ui_defaults\<lparr>max_turns := 1\<rparr>)
           (participants_ui (ui_defaults\<lparr>max_turns := 1\<rparr>)) gen_start [])))) =
        [\<lparr>entry_name = ''Professor Maya'',
          entry_content = ''[Error calling llama3.2:latest via Ollama: boom]''\<rparr>]
   \<and> pairs_main [\<lparr>speaker = ''Professor Maya'', message = ''[Error calling llama3.2:latest: boom]''\<rparr>]
       \<noteq> pairs_ui [\<lparr>entry_name = ''Professor Maya'',
                     entry_content = ''[Error calling llama3.2:latest via Ollama: boom]''\<rparr>]"
proof -
  have a: "fst (conversation_loop failing_backend participants_main 1 0 [] []) =
        Inr [\<lparr>speaker = ''Professor Maya'', message = ''[Error calling llama3.2:latest: boom]''\<rparr>]"
    by (simp add: participants_main_def failing_backend_def getitem_def get_next_response_def
        call_ollama_def Let_def except_Exception_def TEACHER_MODEL_def conversation_loop.simps)
  have b: "conversation_history_internal (fst (snd (snd
        (iterate_generator failing_backend (ui_defaults\<lparr>max_turns := 1\<rparr>)
           (participants_ui (ui_defaults\<lparr>max_turns := 1\<rparr>)) gen_start [])))) =
        [\<lparr>entry_name = ''Professor Maya'',
          entry_content = ''[Error calling llama3.2:latest via Ollama: boom]''\<rparr>]"
    by (simp add: participants_ui_def ui_defaults_def failing_backend_def getitem_def gen_next_def
        gen_start_def call_llm_def Let_def except_Exception_def iterate_generator.simps)
  have c: "pairs_main [\<lparr>speaker = ''Professor Maya'', message = ''[Error calling llama3.2:latest: boom]''\<rparr>]
       \<noteq> pairs_ui [\<lparr>entry_name = ''Professor Maya'',
                     entry_content = ''[Error calling llama3.2:latest via Ollama: boom]''\<rparr>]"
    by (simp add: pairs_main_def pairs_ui_def)
  have d: "topic (ui_defaults\<lparr>max_turns := 1\<rparr>) = INITIAL_TOPIC" by (simp add: ui_defaults_def)
  from defaults_same_participants defaults_same_provider a b c d show ?thesis by (intro conjI)
qed

section \<open>The placeholder of \<open>format_conversation\<close>\<close>

lemma sublist_split_at:
  assumes c: "c \<notin> set p" and s: "sublist p (xs @ c # ys)"
  shows "sublist p xs \<or> sublist p ys"
proof -
  from s have "sublist p xs \<or> sublist p (c # ys) \<or>
      (\<exists>p1 p2. p = p1 @ p2 \<and> suffix p1 xs \<and> prefix p2 (c # ys))"
    by (simp only: sublist_append)
  then show ?thesis
  proof (elim disjE exE conjE)
    assume "sublist p xs"
    then show ?thesis by simp
  next
    assume "sublist p (c # ys)"
    then have "prefix p (c # ys) \<or> sublist p ys" by (simp only: sublist_Cons_right)
    then show ?thesis
    proof
      assume "prefix p (c # ys)"
      with c have "p = []" by (cases p) auto
      then show ?thesis by simp
    qed simp
  next
    fix p1 p2
    assume p: "p = p1 @ p2" and s1: "suffix p1 xs" and p2: "prefix p2 (c # ys)"
    from p2 c p have "p2 = []" by (cases p2) auto
    with p s1 show ?thesis by (auto intro: suffix_imp_sublist)
  qed
qed

lemma sublist_strip_head:
  assumes "p \<noteq> []" and "hd p \<noteq> c" and "sublist p (c # ys)"
  shows "sublist p ys"
  using assms by (cases p) (auto simp: sublist_Cons_right)

lemma sublist_final_char:
  assumes p: "p = q @ [d]" and d: "d \<notin> set q" and s: "sublist p (xs @ d # rest)"
  shows "sublist p (xs @ [d]) \<or> sublist p rest"
proof -
  from s have "sublist p ((xs @ [d]) @ rest)" by simp
  then have "sublist p (xs @ [d]) \<or> sublist p rest \<or>
      (\<exists>p1 p2. p = p1 @ p2 \<and> suffix p1 (xs @ [d]) \<and> prefix p2 rest)"
    by (simp only: sublist_append)
  then show ?thesis
  proof (elim disjE exE conjE)
    fix p1 p2
    assume pp: "p = p1 @ p2" and s1: "suffix p1 (xs @ [d])" and s2: "prefix p2 rest"
    show ?thesis
    proof (cases "p2 = []")
      case True
      with pp s1 show ?thesis by (auto intro: suffix_imp_sublist)
    next
      case False
      show ?thesis
      proof (cases "p1 = []")
        case True
        with pp s2 show ?thesis by (auto intro: prefix_imp_sublist)
      next
        case p1: False
        from s1 p1 have "last p1 = d"
          by (metis last_appendR last_snoc not_Cons_self2 suffix_def)
        with p1 have d1: "d \<in> set p1" by (metis last_in_set)
        from False obtain p2' z where p2: "p2 = p2' @ [z]" by (metis rev_exhaust)
        with pp p have "q = p1 @ p2'" by simp
        with d1 d show ?thesis by simp
      qed
    qed
  qed simp_all
qed

lemma sublist_render:
  assumes "CHR '':'' \<notin> set p" and "p \<noteq> []" and "hd p \<noteq> CHR '' ''"
    and "sublist p (speaker e @ '': '' @ message e)"
  shows "sublist p (speaker e) \<or> sublist p (message e)"
proof -
  from assms(4) have "sublist p (speaker e @ CHR '':'' # (CHR '' '' # message e))" by simp
  from sublist_split_at[OF assms(1) this]
  show ?thesis using sublist_strip_head[OF assms(2,3)] by blast
qed

lemma sublist_join_render:
  assumes nl: "CHR 0x0A \<notin> set p" and col: "CHR '':'' \<notin> set p" and ne: "p \<noteq> []"
    and sp: "hd p \<noteq> CHR '' ''"
  shows "sublist p (join (nl @ nl) (map (\<lambda>e. speaker e @ '': '' @ message e) h)) \<Longrightarrow>
         \<exists>e \<in> set h. sublist p (speaker e) \<or> sublist p (message e)"
proof (induction h rule: induct_list012)
  case 1
  with ne show ?case by simp
next
  case (2 e)
  then have "sublist p (speaker e @ '': '' @ message e)" by simp
  from sublist_render[OF col ne sp this] show ?case by simp
next
  case (3 e e' es)
  let ?J = "join (nl @ nl) (map (\<lambda>e. speaker e @ '': '' @ message e) (e' # es))"
  from 3(3) have "sublist p ((speaker e @ '': '' @ message e) @ CHR 0x0A # (CHR 0x0A # ?J))"
    by (simp add: nl_def)
  from sublist_split_at[OF nl this]
  have "sublist p (speaker e @ '': '' @ message e) \<or> sublist p (CHR 0x0A # ?J)" .
  then show ?case
  proof
    assume "sublist p (speaker e @ '': '' @ message e)"
    from sublist_render[OF col ne sp this] show ?thesis by auto
  next
    assume "sublist p (CHR 0x0A # ?J)"
    then have "sublist p ([] @ CHR 0x0A # ?J)" by simp
    from sublist_split_at[OF nl this] ne have "sublist p ?J" by auto
    with 3(2) show ?thesis by auto
  qed
qed


lemma sublist_strip_prefix:
  assumes "p \<noteq> []" and "hd p \<notin> set t" and "sublist p (t @ ys)"
  shows "sublist p ys"
  using assms(2,3)
proof (induction t)
  case Nil
  then show ?case by simp
next
  case (Cons c t)
  from Cons.prems have "hd p \<noteq> c" and "sublist p (c # (t @ ys))" by auto
  from sublist_strip_head[OF assms(1) this] Cons show ?case by simp
qed

lemma no_capital_N_in_topic: "CHR ''N'' \<notin> set INITIAL_TOPIC"
  by (simp add: INITIAL_TOPIC_def)

lemma placeholder_in_name_part:
  assumes "sublist ''No conversation yet.'' (''You are '' @ nm @ ''.'')"
  shows "sublist ''No conversation yet.'' (nm @ ''.'')"
  by (rule sublist_strip_prefix[OF _ _ assms]) simp_all

lemma placeholder_in_closing_part:
  assumes "sublist ''No conversation yet.''
             (''Now respond with what you would like to say next, as '' @ nm
              @ ''. Be natural and conversational.'')"
  shows "sublist ''No conversation yet.'' (nm @ ''.'')"
proof -
  let ?P = "''No conversation yet.''"
  let ?T = "''ow respond with what you would like to say next, as ''"
  let ?R = "'' Be natural and conversational.''"
  from assms have "sublist ?P (CHR ''N'' # (?T @ nm @ CHR ''.'' # ?R))" by simp
  then have "prefix ?P (CHR ''N'' # (?T @ nm @ CHR ''.'' # ?R))
             \<or> sublist ?P (?T @ nm @ CHR ''.'' # ?R)"
    by (simp only: sublist_Cons_right)
  moreover have "\<not> prefix ?P (CHR ''N'' # (?T @ nm @ CHR ''.'' # ?R))" by simp
  ultimately have "sublist ?P (?T @ (nm @ CHR ''.'' # ?R))" by simp
  then have "sublist ?P (nm @ CHR ''.'' # ?R)"
    by (rule sublist_strip_prefix[rotated 2]) simp_all
  then have "sublist ?P (nm @ [CHR ''.'']) \<or> sublist ?P ?R"
    by (rule sublist_final_char[where q = "''No conversation yet''", rotated 2]) simp_all
  moreover have "\<not> sublist ?P ?R"
  proof
    assume "sublist ?P ?R"
    then have "set ?P \<subseteq> set ?R" by (rule set_mono_sublist)
    then show False by simp
  qed
  ultimately show ?thesis by simp
qed

lemma placeholder_in_opening_prompt:
  assumes "sublist ''No conversation yet.'' (user_prompt nm [])"
  shows "sublist ''No conversation yet.'' (nm @ ''.'')"
proof -
  let ?P = "''No conversation yet.''"
  let ?R = "''The topic to discuss is: '' @ INITIAL_TOPIC @ nl @ nl
            @ ''Start the conversation by introducing the topic and asking an opening question.''"
  from assms have "sublist ?P ((''You are '' @ nm @ ''.'') @ CHR 0x0A # ?R)"
    by (simp add: user_prompt_def nl_def)
  then have "sublist ?P (''You are '' @ nm @ ''.'') \<or> sublist ?P ?R"
    by (rule sublist_split_at[rotated]) simp
  moreover have "\<not> sublist ?P ?R"
  proof
    assume "sublist ?P ?R"
    then have "set ?P \<subseteq> set ?R" by (rule set_mono_sublist)
    then have "CHR ''N'' \<in> set ?R" by simp
    with no_capital_N_in_topic show False by (simp add: nl_def)
  qed
  ultimately show ?thesis using placeholder_in_name_part by blast
qed

lemma placeholder_in_history_prompt:
  assumes ne: "history \<noteq> []"
    and s: "sublist ''No conversation yet.'' (user_prompt nm history)"
  shows "sublist ''No conversation yet.'' (nm @ ''.'')
         \<or> (\<exists>e \<in> set history. sublist ''No conversation yet.'' (speaker e)
                              \<or> sublist ''No conversation yet.'' (message e))"
proof -
  let ?P = "''No conversation yet.''"
  let ?J = "join (nl @ nl) (map (\<lambda>e. speaker e @ '': '' @ message e) history)"
  let ?C = "''Now respond with what you would like to say next, as '' @ nm
            @ ''. Be natural and conversational.''"
  let ?H = "''The conversation so far is:''"
  have nlP: "CHR 0x0A \<notin> set ?P" by simp
  have neP: "?P \<noteq> []" by simp
  from s ne have "sublist ?P ((''You are '' @ nm @ ''.'') @ CHR 0x0A
        # ([] @ CHR 0x0A # (?H @ CHR 0x0A # (?J @ CHR 0x0A # ([] @ CHR 0x0A # ?C)))))"
    by (simp add: user_prompt_def format_conversation_def nl_def)
  from sublist_split_at[OF nlP this]
  have "sublist ?P (''You are '' @ nm @ ''.'')
        \<or> sublist ?P ([] @ CHR 0x0A # (?H @ CHR 0x0A # (?J @ CHR 0x0A # ([] @ CHR 0x0A # ?C))))" .
  then show ?thesis
  proof
    assume "sublist ?P (''You are '' @ nm @ ''.'')"
    then show ?thesis using placeholder_in_name_part by blast
  next
    assume "sublist ?P ([] @ CHR 0x0A # (?H @ CHR 0x0A # (?J @ CHR 0x0A # ([] @ CHR 0x0A # ?C))))"
    from sublist_split_at[OF nlP this] neP
    have "sublist ?P (?H @ CHR 0x0A # (?J @ CHR 0x0A # ([] @ CHR 0x0A # ?C)))" by auto
    from sublist_split_at[OF nlP this]
    have "sublist ?P ?H \<or> sublist ?P (?J @ CHR 0x0A # ([] @ CHR 0x0A # ?C))" .
    moreover have "\<not> sublist ?P ?H"
    proof
      assume "sublist ?P ?H"
      then have "set ?P \<subseteq> set ?H" by (rule set_mono_sublist)
      then show False by simp
    qed
    ultimately have "sublist ?P (?J @ CHR 0x0A # ([] @ CHR 0x0A # ?C))" by simp
    from sublist_split_at[OF nlP this]
    have "sublist ?P ?J \<or> sublist ?P ([] @ CHR 0x0A # ?C)" .
    then show ?thesis
    proof
      assume "sublist ?P ?J"
      then have "\<exists>e \<in> set history. sublist ?P (speaker e) \<or> sublist ?P (message e)"
        by (rule sublist_join_render[rotated 4]) simp_all
      then show ?thesis by simp
    next
      assume "sublist ?P ([] @ CHR 0x0A # ?C)"
      from sublist_split_at[OF nlP this] neP have "sublist ?P ?C" by auto
      then show ?thesis using placeholder_in_closing_part by blast
    qed
  qed
qed

lemma sublist_chain:
  assumes "sublist a b" and "sublist b c"
  shows "sublist a c"
proof -
  from assms obtain p1 s1 p2 s2 where "b = p1 @ a @ s1" and "c = p2 @ b @ s2"
    unfolding sublist_def by blast
  then have "c = (p2 @ p1) @ a @ (s1 @ s2)" by simp
  then show ?thesis unfolding sublist_def by blast
qed

lemma name_part_in_prompt: "sublist (nm @ ''.'') (user_prompt nm history)"
proof -
  have "\<exists>ss. user_prompt nm history = ''You are '' @ (nm @ ''.'') @ ss"
    by (simp add: user_prompt_def Let_def)
  then show ?thesis unfolding sublist_def by blast
qed

lemma rendering_in_prompt:
  assumes "history \<noteq> []"
  shows "sublist (join (nl @ nl) (map (\<lambda>e. speaker e @ '': '' @ message e) history))
           (user_prompt nm history)"
proof -
  let ?J = "join (nl @ nl) (map (\<lambda>e. speaker e @ '': '' @ message e) history)"
  from assms have "user_prompt nm history =
      (''You are '' @ nm @ ''.'' @ nl @ nl @ ''The conversation so far is:'' @ nl) @ ?J
      @ (nl @ nl @ ''Now respond with what you would like to say next, as '' @ nm
         @ ''. Be natural and conversational.'')"
    by (simp add: user_prompt_def format_conversation_def)
  then show ?thesis unfolding sublist_def by blast
qed

lemma entry_in_prompt:
  assumes e: "e \<in> set history"
  shows "sublist (speaker e) (user_prompt nm history)"
    and "sublist (message e) (user_prompt nm history)"
proof -
  let ?r = "\<lambda>e. speaker e @ '': '' @ message e"
  from e have ne: "history \<noteq> []" by auto
  from e have "?r e \<in> set (map ?r history)" by force
  then have j: "sublist (?r e) (join (nl @ nl) (map ?r history))" by (rule join_member_sublist)
  have r: "sublist (?r e) (user_prompt nm history)"
    by (rule sublist_chain[OF j rendering_in_prompt[OF ne]])
  have "sublist (speaker e) (?r e)" by simp
  then show "sublist (speaker e) (user_prompt nm history)"
    by (rule sublist_chain[OF _ r])
  have "?r e = (speaker e @ '': '') @ message e @ []" by simp
  then have "sublist (message e) (?r e)" unfolding sublist_def by blast
  then show "sublist (message e) (user_prompt nm history)"
    by (rule sublist_chain[OF _ r])
qed

lemma rendering_has_colon:
  "CHR '':'' \<in> set (join sep (map (\<lambda>e. speaker e @ '': '' @ message e) (e # es)))"
proof -
  let ?r = "\<lambda>e. speaker e @ '': '' @ message e"
  have "sublist (?r e) (join sep (map ?r (e # es)))" by (rule join_member_sublist) simp
  then have "set (?r e) \<subseteq> set (join sep (map ?r (e # es)))" by (rule set_mono_sublist)
  then show ?thesis by auto
qed

text \<open>
  C9 (as amended). The user message contains the text \<^verbatim>\<open>No conversation yet.\<close> exactly
  when the inputs bring it in: the speaker's name followed by the full stop of the template
  contains it, or the speaker or the message of an entry of the history contains it. The
  templates of \<^verbatim>\<open>get_next_response\<close> never contribute it: \<open>format_conversation\<close> returns the
  placeholder for the empty history only, where the user message is the topic-introduction
  prompt, and for a non-empty history its result is not the placeholder.
\<close>

theorem placeholder_only_from_inputs:
  "(sublist ''No conversation yet.'' (user_prompt nm history) \<longleftrightarrow>
      sublist ''No conversation yet.'' (nm @ ''.'')
      \<or> (\<exists>e \<in> set history. sublist ''No conversation yet.'' (speaker e)
                           \<or> sublist ''No conversation yet.'' (message e)))
   \<and> format_conversation [] = ''No conversation yet.''
   \<and> format_conversation (e # es) \<noteq> ''No conversation yet.''"
proof (intro conjI)
  let ?P = "''No conversation yet.''"
  show "sublist ?P (user_prompt nm history) \<longleftrightarrow>
      sublist ?P (nm @ ''.'')
      \<or> (\<exists>e \<in> set history. sublist ?P (speaker e) \<or> sublist ?P (message e))"
  proof
    assume s: "sublist ?P (user_prompt nm history)"
    show "sublist ?P (nm @ ''.'')
      \<or> (\<exists>e \<in> set history. sublist ?P (speaker e) \<or> sublist ?P (message e))"
    proof (cases "history = []")
      case True
      with s placeholder_in_opening_prompt show ?thesis by blast
    next
      case False
      from placeholder_in_history_prompt[OF False s] show ?thesis .
    qed
  next
    assume "sublist ?P (nm @ ''.'')
      \<or> (\<exists>e \<in> set history. sublist ?P (speaker e) \<or> sublist ?P (message e))"
    then show "sublist ?P (user_prompt nm history)"
      using name_part_in_prompt[of nm history] entry_in_prompt[of _ history nm]
      by (blast intro: sublist_chain)
  qed
  show "format_conversation [] = ?P" by (simp add: format_conversation_def)
  show "format_conversation (e # es) \<noteq> ?P"
  proof
    assume "format_conversation (e # es) = ?P"
    then have "join (nl @ nl) (map (\<lambda>e. speaker e @ '': '' @ message e) (e # es)) = ?P"
      by (simp add: format_conversation_def)
    with rendering_has_colon[of "nl @ nl" e es] show False by simp
  qed
qed

theorem placeholder_only_from_inputs_witness:
  "\<not> sublist ''No conversation yet.'' (''Curious George'' @ ''.'')
   \<and> \<not> sublist ''No conversation yet.'' ''Professor Maya''
   \<and> \<not> sublist ''No conversation yet.'' ''Why is the sky blue?''
   \<and> \<not> sublist ''No conversation yet.''
         (user_prompt ''Curious George''
            [\<lparr>speaker = ''Professor Maya'', message = ''Why is the sky blue?''\<rparr>])
   \<and> \<not> sublist ''No conversation yet.'' (user_prompt ''Curious George'' [])"
proof -
  let ?P = "''No conversation yet.''"
  have a: "\<not> sublist ?P (''Curious George'' @ ''.'')"
    by (simp add: sublist_Cons_right)
  have b: "\<not> sublist ?P ''Professor Maya''"
    by (simp add: sublist_Cons_right)
  have c: "\<not> sublist ?P ''Why is the sky blue?''"
    by (simp add: sublist_Cons_right)
  note th = placeholder_only_from_inputs [THEN conjunct1]
  have d: "\<not> sublist ?P (user_prompt ''Curious George''
            [\<lparr>speaker = ''Professor Maya'', message = ''Why is the sky blue?''\<rparr>])"
    using a b c by (simp only: th) simp
  have e: "\<not> sublist ?P (user_prompt ''Curious George'' [])"
    using a by (simp only: th) simp
  from a b c d e show ?thesis by (intro conjI)
qed

text \<open>
  C9 as stated fails: when an entry of the history is itself the text
  \<^verbatim>\<open>No conversation yet.\<close>, the user message for the next speaker contains it.
\<close>

theorem placeholder_text_from_history:
  "sublist ''No conversation yet.''
     (user_prompt ''Curious George''
        [\<lparr>speaker = ''Professor Maya'', message = ''No conversation yet.''\<rparr>])"
proof -
  have "user_prompt ''Curious George''
          [\<lparr>speaker = ''Professor Maya'', message = ''No conversation yet.''\<rparr>] =
        (''You are Curious George.'' @ nl @ nl @ ''The conversation so far is:'' @ nl
           @ ''Professor Maya: '')
        @ ''No conversation yet.''
        @ (nl @ nl @ ''Now respond with what you would like to say next, as Curious George. Be natural and conversational.'')"
    by (simp add: user_prompt_def format_conversation_def)
  then show ?thesis unfolding sublist_def by blast
qed

section \<open>Usage accounting\<close>

lemma float_ok_ideal: "float_ok ideal_format"
  by (simp add: float_ok_def ideal_format_def mono_def)

lemma rnd_nonneg: "float_ok F \<Longrightarrow> 0 \<le> x \<Longrightarrow> 0 \<le> rnd F x"
  unfolding float_ok_def using monoD[of "rnd F" 0 x] by auto

lemma fl_nonneg: "float_ok F \<Longrightarrow> 0 \<le> x \<Longrightarrow> nonneg_float (fl F x)"
  using rnd_nonneg[of F x] by (auto simp: fl_def float_ok_def)

lemma fl_representable: "float_ok F \<Longrightarrow> representable F (fl F x)"
  by (auto simp: fl_def float_ok_def abs_less_iff)

lemma fadd_representable: "float_ok F \<Longrightarrow> representable F (fadd F a b)"
  by (cases a; cases b) (simp_all add: fl_representable)

lemma fadd_nonneg:
  "float_ok F \<Longrightarrow> nonneg_float a \<Longrightarrow> nonneg_float b \<Longrightarrow> nonneg_float (fadd F a b)"
  by (cases a; cases b) (simp_all add: fl_nonneg)

lemma fmul_finite_nonneg:
  "float_ok F \<Longrightarrow> 0 \<le> x \<Longrightarrow> 0 \<le> y \<Longrightarrow> nonneg_float (fmul F (Finite x) (Finite y))"
  by (simp add: fl_nonneg)

lemma fl_in_range: "float_ok F \<Longrightarrow> 0 \<le> x \<Longrightarrow> x \<le> 12 \<Longrightarrow> fl F x = Finite (rnd F x)"
  by (auto simp: fl_def float_ok_def)

lemma price_cases:
  assumes "float_ok F"
  shows "\<exists>a b. 0 \<le> a \<and> 0 \<le> b \<and>
           dict_get (PRICING F) m \<lparr>input_price = Finite 0, output_price = Finite 0\<rparr>
             = \<lparr>input_price = Finite a, output_price = Finite b\<rparr>"
proof -
  note r = fl_in_range[OF assms] rnd_nonneg[OF assms]
  have "PRICING F m = None \<or> PRICING F m = Some \<lparr>input_price = fl F 2.5, output_price = fl F 10\<rparr>
   \<or> PRICING F m = Some \<lparr>input_price = fl F 3, output_price = fl F 12\<rparr>
   \<or> PRICING F m = Some \<lparr>input_price = fl F 0.15, output_price = fl F 0.6\<rparr>"
    by (simp add: PRICING_def)
  then show ?thesis
    by (elim disjE) (simp_all add: dict_get_def r)
qed

lemma add_interaction_raise:
  "fst (add_interaction F t m i j) = Inl e \<Longrightarrow> snd (add_interaction F t m i j) = t"
  by (auto simp: add_interaction_def Let_def split: sum.splits)

lemma add_interaction_ok:
  assumes "fst (add_interaction F t m i j) = Inr c"
  shows "snd (add_interaction F t m i j) =
           t\<lparr>interactions := interactions t @
                [\<lparr>i_model = m, input_tokens = i, output_tokens = j, cost = c\<rparr>],
             total_input_tokens := total_input_tokens t + i,
             total_output_tokens := total_output_tokens t + j,
             total_cost := fadd F (total_cost t) c\<rparr>"
  using assms by (auto simp: add_interaction_def Let_def split: sum.splits)

lemma add_interaction_in_range:
  assumes "\<bar>real_of_int i\<bar> / 1000000 < huge F" and "\<bar>real_of_int j\<bar> / 1000000 < huge F"
  shows "fst (add_interaction F t m i j) =
           Inr (fadd F
             (fmul F (Finite (rnd F (real_of_int i / 1000000)))
                (input_price (dict_get (PRICING F) m \<lparr>input_price = Finite 0, output_price = Finite 0\<rparr>)))
             (fmul F (Finite (rnd F (real_of_int j / 1000000)))
                (output_price (dict_get (PRICING F) m \<lparr>input_price = Finite 0, output_price = Finite 0\<rparr>))))"
  using assms by (simp add: add_interaction_def Let_def int_true_div_def)

lemma add_interaction_cost_nonneg:
  assumes ok: "float_ok F" and "0 \<le> i" "0 \<le> j" and c: "fst (add_interaction F t m i j) = Inr c"
  shows "nonneg_float c"
proof -
  from price_cases[OF ok, of m] obtain a b where ab: "0 \<le> a" "0 \<le> b"
    and p: "dict_get (PRICING F) m \<lparr>input_price = Finite 0, output_price = Finite 0\<rparr>
             = \<lparr>input_price = Finite a, output_price = Finite b\<rparr>" by blast
  have qi: "0 \<le> rnd F (real_of_int i / 1000000)" and qj: "0 \<le> rnd F (real_of_int j / 1000000)"
    using assms(2,3) by (simp_all add: rnd_nonneg[OF ok])
  from c have "c = fadd F (fmul F (Finite (rnd F (real_of_int i / 1000000))) (Finite a))
                     (fmul F (Finite (rnd F (real_of_int j / 1000000))) (Finite b))"
    by (auto simp: add_interaction_def Let_def int_true_div_def p split: if_splits)
  then show ?thesis
    using fadd_nonneg[OF ok fmul_finite_nonneg[OF ok qi ab(1)] fmul_finite_nonneg[OF ok qj ab(2)]]
    by simp
qed

lemma float_sum_snoc: "float_sum F (xs @ [x]) = fadd F (float_sum F xs) x"
  by (simp add: float_sum_def)

lemma float_sum_representable: "float_ok F \<Longrightarrow> representable F (float_sum F xs)"
proof (cases xs rule: rev_cases)
  case Nil
  assume "float_ok F"
  with Nil show ?thesis by (simp add: float_sum_def float_ok_def)
next
  case (snoc ys y)
  assume "float_ok F"
  with snoc show ?thesis by (simp add: float_sum_snoc fadd_representable)
qed

lemma float_sum_nonneg:
  "float_ok F \<Longrightarrow> list_all nonneg_float xs \<Longrightarrow> nonneg_float (float_sum F xs)"
proof (induction xs rule: rev_induct)
  case Nil
  show ?case by (simp add: float_sum_def)
next
  case (snoc x xs)
  then show ?case by (simp add: float_sum_snoc fadd_nonneg)
qed

lemma fle_fadd:
  assumes ok: "float_ok F" and "nonneg_float a" and "representable F a" and "nonneg_float c"
  shows "fle a (fadd F a c)"
proof (cases a)
  case (Finite x)
  with assms have x: "0 \<le> x" "rnd F x = x" by simp_all
  show ?thesis
  proof (cases c)
    case (Finite y)
    with assms(4) have y: "0 \<le> y" by simp
    have "rnd F x \<le> rnd F (x + y)" using ok y by (auto simp: float_ok_def intro: monoD)
    then show ?thesis using \<open>a = Finite x\<close> Finite x y ok
      by (auto simp: fl_def float_ok_def)
  next
    case PosInf
    with \<open>a = Finite x\<close> show ?thesis by simp
  next
    case NegInf
    with assms(4) show ?thesis by simp
  next
    case NaN
    with assms(4) show ?thesis by simp
  qed
next
  case PosInf
  with assms(4) show ?thesis by (cases c) simp_all
next
  case NegInf
  with assms(2) show ?thesis by simp
next
  case NaN
  with assms(2) show ?thesis by simp
qed

lemma fadd_zero_left: "float_ok F \<Longrightarrow> representable F c \<Longrightarrow> fadd F (Finite 0) c = c"
  by (cases c) (auto simp: fl_def float_ok_def abs_less_iff)

lemma add_interaction_inv:
  "tracker_inv F t \<Longrightarrow> tracker_inv F (snd (add_interaction F t m i j))"
proof (cases "fst (add_interaction F t m i j)")
  case (Inl e)
  assume "tracker_inv F t"
  with add_interaction_raise[OF Inl] show ?thesis by simp
next
  case (Inr c)
  assume "tracker_inv F t"
  then show ?thesis
    by (simp add: add_interaction_ok[OF Inr] tracker_inv_def float_sum_snoc)
qed

lemma add_interaction_costs_nonneg:
  assumes "float_ok F" "costs_nonneg t" "0 \<le> i" "0 \<le> j"
  shows "costs_nonneg (snd (add_interaction F t m i j))"
proof (cases "fst (add_interaction F t m i j)")
  case (Inl e)
  with add_interaction_raise[OF Inl] assms(2) show ?thesis by simp
next
  case (Inr c)
  from add_interaction_cost_nonneg[OF assms(1,3,4) Inr] assms(2) show ?thesis
    by (simp add: add_interaction_ok[OF Inr] costs_nonneg_def)
qed

lemma tracker_inv_init: "tracker_inv F TokenTracker_init"
  by (simp add: tracker_inv_def TokenTracker_init_def float_sum_def)

lemma costs_nonneg_init: "costs_nonneg TokenTracker_init"
  by (simp add: costs_nonneg_def TokenTracker_init_def)

lemma record_all_inv: "tracker_inv F t \<Longrightarrow> tracker_inv F (record_all F t xs)"
  by (induction F t xs rule: record_all.induct) (simp_all add: add_interaction_inv)

lemma record_all_costs_nonneg:
  "float_ok F \<Longrightarrow> costs_nonneg t \<Longrightarrow> list_all (\<lambda>(m, i, j). 0 \<le> i \<and> 0 \<le> j) xs
     \<Longrightarrow> costs_nonneg (record_all F t xs)"
  by (induction F t xs rule: record_all.induct) (simp_all add: add_interaction_costs_nonneg)

lemma total_cost_nonneg:
  assumes "float_ok F" "tracker_inv F t" "costs_nonneg t"
  shows "nonneg_float (total_cost t)"
proof -
  have "list_all nonneg_float (map cost (interactions t))"
    using assms(3) by (simp add: costs_nonneg_def list_all_iff)
  from float_sum_nonneg[OF assms(1) this] assms(2) show ?thesis by (simp add: tracker_inv_def)
qed

lemma total_cost_mono:
  assumes ok: "float_ok F" and inv: "tracker_inv F t" and nn: "costs_nonneg t"
    and "0 \<le> i" "0 \<le> j"
  shows "fle (total_cost t) (total_cost (snd (add_interaction F t m i j)))"
proof (cases "fst (add_interaction F t m i j)")
  case (Inl e)
  have "fle (total_cost t) (total_cost t)"
    using total_cost_nonneg[OF ok inv nn] by (cases "total_cost t") simp_all
  with add_interaction_raise[OF Inl] show ?thesis by simp
next
  case (Inr c)
  have rep: "representable F (total_cost t)"
    using inv float_sum_representable[OF ok] by (simp add: tracker_inv_def)
  from fle_fadd[OF ok total_cost_nonneg[OF ok inv nn] rep
      add_interaction_cost_nonneg[OF ok assms(4,5) Inr]]
  show ?thesis by (simp add: add_interaction_ok[OF Inr])
qed


lemma fval_sum_nonneg: "list_all nonneg_float cs \<Longrightarrow> 0 \<le> sum_list (map fval cs)"
proof (induction cs)
  case Nil
  then show ?case by simp
next
  case (Cons c cs)
  then show ?case by (cases c) simp_all
qed

lemma exact_float_sum:
  assumes id: "rnd F = (\<lambda>x. x)" and pos: "0 < huge F"
  shows "list_all is_finite cs \<Longrightarrow> list_all nonneg_float cs \<Longrightarrow>
         sum_list (map fval cs) < huge F \<Longrightarrow>
         float_sum F cs = Finite (sum_list (map fval cs))"
proof (induction cs rule: rev_induct)
  case Nil
  then show ?case by (simp add: float_sum_def)
next
  case (snoc c cs)
  from snoc.prems obtain v where c: "c = Finite v" and v: "0 \<le> v" by (cases c) simp_all
  from snoc.prems have nn: "0 \<le> sum_list (map fval cs)" by (simp add: fval_sum_nonneg)
  from snoc.prems c have lt: "sum_list (map fval cs) + v < huge F" by simp
  with v have "sum_list (map fval cs) < huge F" by simp
  with snoc have "float_sum F cs = Finite (sum_list (map fval cs))" by simp
  then have "float_sum F (cs @ [c]) = fl F (sum_list (map fval cs) + v)"
    by (simp add: float_sum_snoc c)
  also have "\<dots> = Finite (sum_list (map fval cs) + v)"
    using lt nn v pos by (simp add: fl_def id)
  finally show ?case by (simp add: c)
qed

text \<open>
  C8 (as amended). For token counts whose millionth lies below the overflow threshold of
  the floats, \<open>add_interaction\<close> raises nothing and the recorded cost is
  \<open>(input_tokens/1e6) * input_price + (output_tokens/1e6) * output_price\<close> in float
  arithmetic, with the prices of the table; a model absent from the table costs \<open>0.0\<close>
  without an error. After any sequence of recordings the aggregate cost is the float sum
  of the recorded costs, added in the order of recording: it is not negative when no token
  count is, it is the numeric sum where the arithmetic is exact and stays in range, and
  after two recordings on a fresh tracker it is the float sum of the two costs.
\<close>

theorem usage_cost_accounting:
  assumes ok: "float_ok F"
    and ri: "\<bar>real_of_int i\<bar> / 1000000 < huge F"
    and rj: "\<bar>real_of_int j\<bar> / 1000000 < huge F"
  shows "(\<forall>p. PRICING F m = Some p \<longrightarrow>
            fst (add_interaction F t m i j) =
              Inr (fadd F (fmul F (Finite (rnd F (real_of_int i / 1000000))) (input_price p))
                          (fmul F (Finite (rnd F (real_of_int j / 1000000))) (output_price p))))
       \<and> (\<exists>c. fst (add_interaction F t m i j) = Inr c \<and>
               cost (last (interactions (snd (add_interaction F t m i j)))) = c \<and>
               total_cost (snd (add_interaction F t m i j)) = fadd F (total_cost t) c)
       \<and> (PRICING F m = None \<longrightarrow> fst (add_interaction F t m i j) = Inr (Finite 0))
       \<and> total_cost (record_all F TokenTracker_init xs) =
            float_sum F (map cost (interactions (record_all F TokenTracker_init xs)))
       \<and> (list_all (\<lambda>(m, i, j). 0 \<le> i \<and> 0 \<le> j) xs \<longrightarrow>
            nonneg_float (total_cost (record_all F TokenTracker_init xs)))
       \<and> (rnd F = (\<lambda>x. x) \<longrightarrow>
            list_all (\<lambda>(m, i, j). 0 \<le> i \<and> 0 \<le> j) xs \<longrightarrow>
            list_all is_finite (map cost (interactions (record_all F TokenTracker_init xs))) \<longrightarrow>
            sum_list (map fval (map cost (interactions (record_all F TokenTracker_init xs))))
              < huge F \<longrightarrow>
            total_cost (record_all F TokenTracker_init xs) =
              Finite (sum_list (map fval
                (map cost (interactions (record_all F TokenTracker_init xs))))))
       \<and> (\<forall>c1 t1 c2 t2.
            add_interaction F TokenTracker_init m i j = (Inr c1, t1) \<longrightarrow>
            add_interaction F t1 m2 i2 j2 = (Inr c2, t2) \<longrightarrow>
            total_cost t2 = fadd F c1 c2)"
proof -
  have hpos: "0 < huge F" using ok by (simp add: float_ok_def)
  have x: "rnd F = (\<lambda>x. x) \<longrightarrow>
            list_all (\<lambda>(m, i, j). 0 \<le> i \<and> 0 \<le> j) xs \<longrightarrow>
            list_all is_finite (map cost (interactions (record_all F TokenTracker_init xs))) \<longrightarrow>
            sum_list (map fval (map cost (interactions (record_all F TokenTracker_init xs))))
              < huge F \<longrightarrow>
            total_cost (record_all F TokenTracker_init xs) =
              Finite (sum_list (map fval
                (map cost (interactions (record_all F TokenTracker_init xs)))))"
  proof (intro impI)
    let ?T = "record_all F TokenTracker_init xs"
    assume id: "rnd F = (\<lambda>x. x)"
      and nn: "list_all (\<lambda>(m, i, j). 0 \<le> i \<and> 0 \<le> j) xs"
      and fin: "list_all is_finite (map cost (interactions ?T))"
      and lt: "sum_list (map fval (map cost (interactions ?T))) < huge F"
    from record_all_costs_nonneg[OF ok costs_nonneg_init nn]
    have "list_all nonneg_float (map cost (interactions ?T))"
      by (simp add: costs_nonneg_def list_all_iff)
    from exact_float_sum[OF id hpos fin this lt]
    have "float_sum F (map cost (interactions ?T)) =
            Finite (sum_list (map fval (map cost (interactions ?T))))" .
    moreover have "tracker_inv F ?T" by (rule record_all_inv) (rule tracker_inv_init)
    ultimately show "total_cost ?T = Finite (sum_list (map fval (map cost (interactions ?T))))"
      by (simp add: tracker_inv_def)
  qed
  let ?dflt = "\<lparr>input_price = Finite 0, output_price = Finite 0\<rparr>"
  note val = add_interaction_in_range[OF ri rj]
  have a: "\<forall>p. PRICING F m = Some p \<longrightarrow>
            fst (add_interaction F t m i j) =
              Inr (fadd F (fmul F (Finite (rnd F (real_of_int i / 1000000))) (input_price p))
                          (fmul F (Finite (rnd F (real_of_int j / 1000000))) (output_price p)))"
    by (simp add: val dict_get_def)
  obtain c where c: "fst (add_interaction F t m i j) = Inr c" using val by blast
  have b: "\<exists>c. fst (add_interaction F t m i j) = Inr c \<and>
               cost (last (interactions (snd (add_interaction F t m i j)))) = c \<and>
               total_cost (snd (add_interaction F t m i j)) = fadd F (total_cost t) c"
    using c by (simp add: add_interaction_ok[OF c])
  have z: "fl F 0 = Finite 0" using ok by (auto simp: fl_def float_ok_def)
  have d: "PRICING F m = None \<longrightarrow> fst (add_interaction F t m i j) = Inr (Finite 0)"
    by (simp add: val dict_get_def z)
  have inv: "tracker_inv F (record_all F TokenTracker_init xs)"
    by (rule record_all_inv) (rule tracker_inv_init)
  then have e: "total_cost (record_all F TokenTracker_init xs) =
            float_sum F (map cost (interactions (record_all F TokenTracker_init xs)))"
    by (simp add: tracker_inv_def)
  have f: "list_all (\<lambda>(m, i, j). 0 \<le> i \<and> 0 \<le> j) xs \<longrightarrow>
            nonneg_float (total_cost (record_all F TokenTracker_init xs))"
    using total_cost_nonneg[OF ok inv] record_all_costs_nonneg[OF ok costs_nonneg_init]
    by blast
  have g: "total_cost t2 = fadd F c1 c2"
    if one: "add_interaction F TokenTracker_init m i j = (Inr c1, t1)"
      and two: "add_interaction F t1 m2 i2 j2 = (Inr c2, t2)" for c1 t1 c2 t2
  proof -
    from one have f1: "fst (add_interaction F TokenTracker_init m i j) = Inr c1"
      and s1: "snd (add_interaction F TokenTracker_init m i j) = t1" by simp_all
    from two have f2: "fst (add_interaction F t1 m2 i2 j2) = Inr c2"
      and s2: "snd (add_interaction F t1 m2 i2 j2) = t2" by simp_all
    have "c1 = fadd F
             (fmul F (Finite (rnd F (real_of_int i / 1000000))) (input_price (dict_get (PRICING F) m ?dflt)))
             (fmul F (Finite (rnd F (real_of_int j / 1000000))) (output_price (dict_get (PRICING F) m ?dflt)))"
      using add_interaction_in_range[OF ri rj, of TokenTracker_init m] f1 by simp
    then have "representable F c1" by (simp add: fadd_representable[OF ok])
    then have "fadd F (Finite 0) c1 = c1" by (rule fadd_zero_left[OF ok])
    moreover have "total_cost t1 = fadd F (Finite 0) c1"
      unfolding s1[symmetric] add_interaction_ok[OF f1] by (simp add: TokenTracker_init_def)
    moreover have "total_cost t2 = fadd F (total_cost t1) c2"
      unfolding s2[symmetric] add_interaction_ok[OF f2] by simp
    ultimately show ?thesis by simp
  qed
  from a b d e f x g show ?thesis by blast
qed

lemma rnd_ideal: "rnd ideal_format x = x"
  by (simp add: ideal_format_def)

lemma huge_ideal: "1000000000 < huge ideal_format"
  by (simp add: ideal_format_def)

lemma fl_ideal: "\<bar>x\<bar> \<le> 1000000000 \<Longrightarrow> fl ideal_format x = Finite x"
  using huge_ideal by (auto simp: fl_def rnd_ideal)

lemma int_true_div_ideal:
  "b \<noteq> 0 \<Longrightarrow> \<bar>real_of_int a / real_of_int b\<bar> \<le> 1000000000 \<Longrightarrow>
     int_true_div ideal_format a b = Inr (Finite (real_of_int a / real_of_int b))"
  using huge_ideal by (auto simp: int_true_div_def rnd_ideal)

lemma pricing_gpt4o:
  "PRICING ideal_format ''gpt-4o'' = Some \<lparr>input_price = Finite 2.5, output_price = Finite 10\<rparr>"
  by (simp add: PRICING_def fl_ideal)

lemma pricing_unknown: "PRICING F ''some-other-model'' = None"
  by (simp add: PRICING_def)

theorem usage_cost_accounting_witness:
  "\<bar>real_of_int 1000000\<bar> / 1000000 < huge ideal_format
   \<and> \<bar>real_of_int 500000\<bar> / 1000000 < huge ideal_format
   \<and> fst (add_interaction ideal_format TokenTracker_init ''gpt-4o'' 1000000 500000) = Inr (Finite 7.5)
   \<and> fst (add_interaction ideal_format TokenTracker_init ''some-other-model'' 1000000 500000)
       = Inr (Finite 0)
   \<and> total_cost (record_all ideal_format TokenTracker_init
        [(''gpt-4o'', 1000000, 500000), (''gpt-4o'', 2000000, 0)]) = Finite 12.5"
proof -
  have r1: "\<bar>real_of_int 1000000\<bar> / 1000000 < huge ideal_format"
    and r2: "\<bar>real_of_int 500000\<bar> / 1000000 < huge ideal_format"
    using huge_ideal by simp_all
  note th = usage_cost_accounting [OF float_ok_ideal r1 r2]
  from th [of "''gpt-4o''" TokenTracker_init "[]" "''gpt-4o''" 0 0, THEN conjunct1] pricing_gpt4o
  have "fst (add_interaction ideal_format TokenTracker_init ''gpt-4o'' 1000000 500000) =
          Inr (fadd ideal_format
                 (fmul ideal_format (Finite (rnd ideal_format (real_of_int 1000000 / 1000000))) (Finite 2.5))
                 (fmul ideal_format (Finite (rnd ideal_format (real_of_int 500000 / 1000000))) (Finite 10)))"
    by simp
  then have a: "fst (add_interaction ideal_format TokenTracker_init ''gpt-4o'' 1000000 500000)
                  = Inr (Finite 7.5)"
    by (simp add: fl_ideal rnd_ideal)
  from th [of "''some-other-model''" TokenTracker_init "[]" "''gpt-4o''" 0 0,
           THEN conjunct2, THEN conjunct2, THEN conjunct1] pricing_unknown
  have b: "fst (add_interaction ideal_format TokenTracker_init ''some-other-model'' 1000000 500000)
       = Inr (Finite 0)"
    by (rule mp)
  have c: "total_cost (record_all ideal_format TokenTracker_init
        [(''gpt-4o'', 1000000, 500000), (''gpt-4o'', 2000000, 0)]) = Finite 12.5"
    by (simp add: add_interaction_def Let_def dict_get_def pricing_gpt4o TokenTracker_init_def
          int_true_div_ideal fl_ideal)
  from r1 r2 a b c show ?thesis by (intro conjI)
qed

lemma int_true_div_overflow:
  "b \<noteq> 0 \<Longrightarrow> huge F \<le> \<bar>real_of_int a / real_of_int b\<bar> \<Longrightarrow>
     int_true_div F a b = Inl (Exception ''integer division result too large for a float'')"
  by (simp add: int_true_div_def)

lemma add_interaction_overflow:
  "int_true_div F i 1000000 = Inl e \<Longrightarrow> add_interaction F t m i j = (Inl e, t)"
  by (simp add: add_interaction_def Let_def)

lemma ideal_overflow:
  "huge ideal_format \<le> \<bar>real_of_int (10 ^ 400) / real_of_int 1000000\<bar>"
  by (simp add: ideal_format_def)

text \<open>
  C8 as stated fails: a token count too large for a float makes \<^verbatim>\<open>input_tokens / 1_000_000\<close>
  raise \<^verbatim>\<open>OverflowError\<close>, so a model absent from the table does not cost 0 without an
  error there, and nothing is recorded.
\<close>

theorem huge_token_count_raises:
  "PRICING ideal_format ''some-other-model'' = None
   \<and> add_interaction ideal_format TokenTracker_init ''some-other-model'' (10 ^ 400) 0 =
       (Inl (Exception ''integer division result too large for a float''), TokenTracker_init)"
proof -
  have "int_true_div ideal_format (10 ^ 400) 1000000 =
          Inl (Exception ''integer division result too large for a float'')"
    by (rule int_true_div_overflow) (simp, rule ideal_overflow)
  then have "add_interaction ideal_format TokenTracker_init ''some-other-model'' (10 ^ 400) 0 =
       (Inl (Exception ''integer division result too large for a float''), TokenTracker_init)"
    by (rule add_interaction_overflow)
  with pricing_unknown show ?thesis by (intro conjI)
qed

text \<open>
  C10. The invariant of the tracker: the token totals are the sums of the token fields
  over the list of interactions, the total cost is the float sum of the recorded costs,
  and no recorded cost is negative or not-a-number. It holds of a fresh tracker and of
  every tracker reached from it by calls with non-negative token counts, and every such
  call preserves it; the three aggregates and the length of the list do not decrease; a
  call that returns adds exactly one interaction, a call that raises (a token count too
  large for a float) leaves the tracker as it was, and so does a provider call that
  raises.
\<close>

theorem tracker_invariant:
  assumes "float_ok F" and "tracker_inv F t" and "costs_nonneg t" and "0 \<le> i" and "0 \<le> j"
  shows "tracker_inv F TokenTracker_init \<and> costs_nonneg TokenTracker_init
       \<and> (list_all (\<lambda>(m, i, j). 0 \<le> i \<and> 0 \<le> j) xs \<longrightarrow>
            tracker_inv F (record_all F TokenTracker_init xs) \<and>
            costs_nonneg (record_all F TokenTracker_init xs))
       \<and> tracker_inv F (snd (add_interaction F t m i j))
       \<and> costs_nonneg (snd (add_interaction F t m i j))
       \<and> total_input_tokens t \<le> total_input_tokens (snd (add_interaction F t m i j))
       \<and> total_output_tokens t \<le> total_output_tokens (snd (add_interaction F t m i j))
       \<and> fle (total_cost t) (total_cost (snd (add_interaction F t m i j)))
       \<and> length (interactions t) \<le> length (interactions (snd (add_interaction F t m i j)))
       \<and> (\<forall>c. fst (add_interaction F t m i j) = Inr c \<longrightarrow>
            length (interactions (snd (add_interaction F t m i j))) = Suc (length (interactions t)))
       \<and> (\<forall>e. fst (add_interaction F t m i j) = Inl e \<longrightarrow> snd (add_interaction F t m i j) = t)
       \<and> (\<forall>e. be (client_openai env_key) calls (openai_request m msgs cfg) = Inl e \<longrightarrow>
            fst (snd (call_openai F be env_key calls m msgs cfg t)) = t)"
proof -
  let ?t' = "snd (add_interaction F t m i j)"
  have shape: "?t' = t \<or> (\<exists>c. fst (add_interaction F t m i j) = Inr c \<and>
        ?t' = t\<lparr>interactions := interactions t @
                [\<lparr>i_model = m, input_tokens = i, output_tokens = j, cost = c\<rparr>],
             total_input_tokens := total_input_tokens t + i,
             total_output_tokens := total_output_tokens t + j,
             total_cost := fadd F (total_cost t) c\<rparr>)"
    using add_interaction_raise[of F t m i j] add_interaction_ok[of F t m i j]
    by (cases "fst (add_interaction F t m i j)") auto
  have a: "total_input_tokens t \<le> total_input_tokens ?t'"
    using shape assms(4) by auto
  have b: "total_output_tokens t \<le> total_output_tokens ?t'"
    using shape assms(5) by auto
  have c: "length (interactions t) \<le> length (interactions ?t')"
    using shape by auto
  have c': "\<forall>c. fst (add_interaction F t m i j) = Inr c \<longrightarrow>
            length (interactions ?t') = Suc (length (interactions t))"
    using add_interaction_ok[of F t m i j] by auto
  have d: "\<forall>e. fst (add_interaction F t m i j) = Inl e \<longrightarrow> ?t' = t"
    using add_interaction_raise[of F t m i j] by blast
  have e: "\<forall>e. be (client_openai env_key) calls (openai_request m msgs cfg) = Inl e \<longrightarrow>
            fst (snd (call_openai F be env_key calls m msgs cfg t)) = t"
    by (simp add: call_openai_def Let_def)
  have r: "list_all (\<lambda>(m, i, j). 0 \<le> i \<and> 0 \<le> j) xs \<longrightarrow>
            tracker_inv F (record_all F TokenTracker_init xs) \<and>
            costs_nonneg (record_all F TokenTracker_init xs)"
    using record_all_inv[OF tracker_inv_init]
      record_all_costs_nonneg[OF assms(1) costs_nonneg_init] by blast
  from a b c c' d e r tracker_inv_init costs_nonneg_init add_interaction_inv[OF assms(2)]
    add_interaction_costs_nonneg[OF assms(1,3,4,5)] total_cost_mono[OF assms]
  show ?thesis by (intro conjI)
qed

theorem tracker_invariant_witness:
  "tracker_inv ideal_format TokenTracker_init \<and> costs_nonneg TokenTracker_init
   \<and> (0::int) \<le> 1000 \<and> (0::int) \<le> 500
   \<and> tracker_inv ideal_format (snd (add_interaction ideal_format TokenTracker_init ''gpt-4o'' 1000 500))
   \<and> fle (total_cost TokenTracker_init)
        (total_cost (snd (add_interaction ideal_format TokenTracker_init ''gpt-4o'' 1000 500)))
   \<and> length (interactions (snd (add_interaction ideal_format TokenTracker_init ''gpt-4o'' 1000 500)))
       = 1
   \<and> fst (snd (call_openai ideal_format failing_backend ''k'' [] ''gpt-4o'' [] TEACHER_CONFIG
                 TokenTracker_init)) = TokenTracker_init"
proof -
  have h: "tracker_inv ideal_format TokenTracker_init" "costs_nonneg TokenTracker_init"
      "(0::int) \<le> 1000" "(0::int) \<le> 500"
    by (simp_all add: tracker_inv_init costs_nonneg_init)
  have f: "failing_backend (client_openai ''k'') [] (openai_request ''gpt-4o'' [] TEACHER_CONFIG)
             = Inl (Exception ''boom'')"
    by (simp add: failing_backend_def)
  have r: "\<bar>real_of_int 1000\<bar> / 1000000 < huge ideal_format"
      "\<bar>real_of_int 500\<bar> / 1000000 < huge ideal_format"
    using huge_ideal by simp_all
  from add_interaction_in_range[OF r, of TokenTracker_init "''gpt-4o''"]
  obtain c where c: "fst (add_interaction ideal_format TokenTracker_init ''gpt-4o'' 1000 500) = Inr c"
    by blast
  note th = tracker_invariant [OF float_ok_ideal h, of "[]" "''gpt-4o''" failing_backend "''k''" "[]"
      "[]" TEACHER_CONFIG]
  from th f have "fst (snd (call_openai ideal_format failing_backend ''k'' [] ''gpt-4o'' [] TEACHER_CONFIG
                 TokenTracker_init)) = TokenTracker_init"
    by blast
  moreover from th c
  have "length (interactions (snd (add_interaction ideal_format TokenTracker_init ''gpt-4o'' 1000 500)))
          = Suc (length (interactions TokenTracker_init))"
    by blast
  then have "length (interactions (snd (add_interaction ideal_format TokenTracker_init ''gpt-4o'' 1000 500)))
       = 1"
    by (simp add: TokenTracker_init_def)
  ultimately show ?thesis using h th by (intro conjI) blast+
qed

end
